theory Spec2Isabelle
  imports Main
begin

section \<open>JavaScript values and strings\<close>

text \<open>
  The server is JavaScript. A string is modelled as a list of 8-bit characters (code units
  below 256). A value decoded from JSON is a \<open>json\<close>; JavaScript's \<open>undefined\<close> is
  \<open>None\<close> of \<open>json option\<close>. Numbers are IEEE doubles in the engine: the type of
  numbers is the parameter \<open>'n\<close>, and what the engine does with a number (its truthiness,
  its decimal text, reading a literal) is a field of the engine record below.
  An object is an association list read through \<open>map_of\<close> (the first binding of a key
  is the property); the order of the list carries no meaning.
\<close>

datatype 'n json =
    JNull
  | JBool bool
  | JNum 'n
  | JStr string
  | JArr "'n json list"
  | JObj "(string \<times> 'n json) list"

datatype js_error =
    Error string
  | SyntaxError string
  | TypeError string

fun message :: "js_error \<Rightarrow> string" where
  "message (Error m) = m"
| "message (SyntaxError m) = m"
| "message (TypeError m) = m"

record 'n engine =
  num_truthy :: "'n \<Rightarrow> bool"
  num_str :: "'n \<Rightarrow> string"
  num_of :: "string \<Rightarrow> 'n"
  syntax_msg :: "string \<Rightarrow> string"

text \<open>\<open>String.prototype.trim\<close> strips WhiteSpace and LineTerminator code points; below 256
  these are TAB, LF, VT, FF, CR, SP and NBSP.\<close>

definition isWhiteSpace :: "char \<Rightarrow> bool" where
  "isWhiteSpace c \<longleftrightarrow>
     c = CHR 0x09 \<or> c = CHR 0x0A \<or> c = CHR 0x0B \<or> c = CHR 0x0C \<or> c = CHR 0x0D \<or>
     c = CHR 0x20 \<or> c = CHR 0xA0"

definition trim :: "string \<Rightarrow> string" where
  "trim s = rev (dropWhile isWhiteSpace (rev (dropWhile isWhiteSpace s)))"

text \<open>\<open>s.split(sep)\<close> for a one-character separator: never the empty array.\<close>

fun split :: "string \<Rightarrow> char \<Rightarrow> string list" where
  "split [] sep = [[]]"
| "split (c # cs) sep =
     (if c = sep then [] # split cs sep
      else (case split cs sep of [] \<Rightarrow> [[c]] | l # ls \<Rightarrow> (c # l) # ls))"

text \<open>\<open>s.indexOf(c)\<close> and \<open>s.lastIndexOf(c)\<close> for a one-character needle: \<open>-1\<close> when absent.\<close>

fun indexOf :: "string \<Rightarrow> char \<Rightarrow> int" where
  "indexOf [] c = - 1"
| "indexOf (x # xs) c =
     (if x = c then 0 else (let r = indexOf xs c in if r < 0 then - 1 else r + 1))"

fun lastIndexOf :: "string \<Rightarrow> char \<Rightarrow> int" where
  "lastIndexOf [] c = - 1"
| "lastIndexOf (x # xs) c =
     (let r = lastIndexOf xs c in if 0 \<le> r then r + 1 else if x = c then 0 else - 1)"

text \<open>\<open>s.slice(b, e)\<close>: negative indices count from the end, both are clamped.\<close>

definition slice :: "'a list \<Rightarrow> int \<Rightarrow> int \<Rightarrow> 'a list" where
  "slice s b e =
     (let n = int (length s);
          from = (if b < 0 then max (n + b) 0 else min b n);
          to = (if e < 0 then max (n + e) 0 else min e n)
      in take (nat (to - from)) (drop (nat from) s))"

section \<open>The output interpreter: parsePossibleJson\<close>

text \<open>
  \<open>JSON.parse\<close> is a built-in of the engine. \<open>parsePossibleJson\<close> takes it as the
  parameter \<open>P\<close>: \<open>Inr v\<close> is the decoded value, \<open>Inl e\<close> the error it throws.

  The raw output is the \<open>stdout\<close> string of the child process, so
  \<open>String(rawOutput || '')\<close> is the raw output itself.

  The \<open>for\<close> loop over the lines pushes each decoded line and stops at the first line
  that does not decode, with \<open>ndjsonValid = false\<close>: that outcome is \<open>None\<close>.
\<close>

fun parseLines ::
  "(string \<Rightarrow> js_error + 'n json) \<Rightarrow> string list \<Rightarrow> 'n json list \<Rightarrow> 'n json list option" where
  "parseLines P [] parsedLines = Some parsedLines"
| "parseLines P (line # rest) parsedLines =
     (case P line of
        Inl _ \<Rightarrow> None
      | Inr v \<Rightarrow> parseLines P rest (parsedLines @ [v]))"

definition nonBlankLines :: "string \<Rightarrow> string list" where
  "nonBlankLines trimmed = filter (\<lambda>line. line \<noteq> []) (map trim (split trimmed CHR 0x0A))"

definition jsonStart :: "string \<Rightarrow> int" where
  "jsonStart trimmed =
     (let startArray = indexOf trimmed CHR ''['';
          startObject = indexOf trimmed CHR ''{'';
          startCandidates = filter (\<lambda>idx. 0 \<le> idx) [startArray, startObject]
      in case startCandidates of [] \<Rightarrow> - 1 | c # cs \<Rightarrow> fold min cs c)"

definition jsonEnd :: "string \<Rightarrow> int" where
  "jsonEnd trimmed =
     (let endArray = lastIndexOf trimmed CHR '']'';
          endObject = lastIndexOf trimmed CHR ''}''
      in max endArray endObject)"

text \<open>The tail of the \<open>catch\<close> block, from the comment on extra text around JSON.\<close>

definition extractEmbedded ::
  "(string \<Rightarrow> js_error + 'n json) \<Rightarrow> js_error \<Rightarrow> string \<Rightarrow> js_error + 'n json" where
  "extractEmbedded P firstErr trimmed =
     (if 0 \<le> jsonStart trimmed \<and> jsonStart trimmed < jsonEnd trimmed
      then P (slice trimmed (jsonStart trimmed) (jsonEnd trimmed + 1))
      else Inl (Error (''No valid JSON found in fleetctl output ('' @ message firstErr @ '')'')))"

definition parsePossibleJson ::
  "(string \<Rightarrow> js_error + 'n json) \<Rightarrow> string \<Rightarrow> js_error + 'n json" where
  "parsePossibleJson P rawOutput =
     (let trimmed = trim rawOutput in
      if trimmed = [] then Inl (Error ''Empty output from fleetctl'')
      else case P trimmed of
        Inr v \<Rightarrow> Inr v
      | Inl firstErr \<Rightarrow>
          (let lines = nonBlankLines trimmed in
           case (if 1 < length lines then parseLines P lines [] else None) of
             Some parsedLines \<Rightarrow> Inr (JArr parsedLines)
           | None \<Rightarrow> extractEmbedded P firstErr trimmed))"

section \<open>The built-in JSON.parse\<close>

text \<open>
  \<open>JSON.parse\<close> is not code of the repository. Every general theorem below holds for any
  function \<open>P\<close> in its place. \<open>JSON_parse\<close> is a reference model of the built-in after the
  JSON grammar of ECMA-262/ECMA-404, used where a statement is about a concrete text: a lexer
  over the characters, then a stack machine over the tokens. A number or a word can only be
  followed by white space, punctuation or the end of the text, so the lexer rejects any
  other character there. The Number a literal denotes
  and the text of the SyntaxError are the engine's (\<open>num_of\<close>, \<open>syntax_msg\<close>).
  An escape \<open>\uXXXX\<close> above \<open>00FF\<close> denotes a code unit outside the 8-bit strings of this
  model, and the reference model rejects it.
\<close>

datatype token =
    TLBracket | TRBracket | TLBrace | TRBrace | TComma | TColon
  | TString string | TNumber string | TWord string

datatype lexmode =
    Between
  | InString string
  | Escape string
  | Unicode string "nat list"
  | InNumber string
  | InWord string

definition isJsonSpace :: "char \<Rightarrow> bool" where
  "isJsonSpace c \<longleftrightarrow> c = CHR 0x09 \<or> c = CHR 0x0A \<or> c = CHR 0x0D \<or> c = CHR 0x20"

definition charCode :: "char \<Rightarrow> nat" where
  "charCode c = of_char c"

definition isDigit :: "char \<Rightarrow> bool" where
  "isDigit c \<longleftrightarrow> 48 \<le> charCode c \<and> charCode c \<le> 57"

definition isLower :: "char \<Rightarrow> bool" where
  "isLower c \<longleftrightarrow> 97 \<le> charCode c \<and> charCode c \<le> 122"

definition isUpper :: "char \<Rightarrow> bool" where
  "isUpper c \<longleftrightarrow> 65 \<le> charCode c \<and> charCode c \<le> 90"

definition isNumChar :: "char \<Rightarrow> bool" where
  "isNumChar c \<longleftrightarrow>
     isDigit c \<or> c = CHR ''+'' \<or> c = CHR ''-'' \<or> c = CHR ''.'' \<or> c = CHR ''e'' \<or> c = CHR ''E''"

definition hexValue :: "char \<Rightarrow> nat option" where
  "hexValue c =
     (if isDigit c then Some (charCode c - 48)
      else if 97 \<le> charCode c \<and> charCode c \<le> 102 then Some (charCode c - 87)
      else if 65 \<le> charCode c \<and> charCode c \<le> 70 then Some (charCode c - 55)
      else None)"

definition unescape :: "char \<Rightarrow> char option" where
  "unescape c =
     (if c = CHR 0x22 \<or> c = CHR 0x5C \<or> c = CHR ''/'' then Some c
      else if c = CHR ''b'' then Some (CHR 0x08)
      else if c = CHR ''f'' then Some (CHR 0x0C)
      else if c = CHR ''n'' then Some (CHR 0x0A)
      else if c = CHR ''r'' then Some (CHR 0x0D)
      else if c = CHR ''t'' then Some (CHR 0x09)
      else None)"

definition punctuation :: "char \<Rightarrow> token option" where
  "punctuation c =
     (if c = CHR ''['' then Some TLBracket
      else if c = CHR '']'' then Some TRBracket
      else if c = CHR ''{'' then Some TLBrace
      else if c = CHR ''}'' then Some TRBrace
      else if c = CHR '','' then Some TComma
      else if c = CHR '':'' then Some TColon
      else None)"

fun lex :: "lexmode \<Rightarrow> string \<Rightarrow> token list option" where
  "lex Between [] = Some []"
| "lex (InNumber acc) [] = Some [TNumber acc]"
| "lex (InWord acc) [] = Some [TWord acc]"
| "lex (InString acc) [] = None"
| "lex (Escape acc) [] = None"
| "lex (Unicode acc hs) [] = None"
| "lex Between (c # cs) =
     (if isJsonSpace c then lex Between cs
      else if c = CHR 0x22 then lex (InString []) cs
      else if c = CHR ''-'' \<or> isDigit c then lex (InNumber [c]) cs
      else if isLower c then lex (InWord [c]) cs
      else (case punctuation c of
              None \<Rightarrow> None
            | Some t \<Rightarrow> map_option (Cons t) (lex Between cs)))"
| "lex (InNumber acc) (c # cs) =
     (if isNumChar c then lex (InNumber (acc @ [c])) cs
      else if isJsonSpace c then map_option (Cons (TNumber acc)) (lex Between cs)
      else (case punctuation c of
              None \<Rightarrow> None
            | Some t \<Rightarrow> map_option (\<lambda>ts. TNumber acc # t # ts) (lex Between cs)))"
| "lex (InWord acc) (c # cs) =
     (if isLower c then lex (InWord (acc @ [c])) cs
      else if isJsonSpace c then map_option (Cons (TWord acc)) (lex Between cs)
      else (case punctuation c of
              None \<Rightarrow> None
            | Some t \<Rightarrow> map_option (\<lambda>ts. TWord acc # t # ts) (lex Between cs)))"
| "lex (InString acc) (c # cs) =
     (if c = CHR 0x22 then map_option (Cons (TString acc)) (lex Between cs)
      else if c = CHR 0x5C then lex (Escape acc) cs
      else if charCode c < 32 then None
      else lex (InString (acc @ [c])) cs)"
| "lex (Escape acc) (c # cs) =
     (if c = CHR ''u'' then lex (Unicode acc []) cs
      else (case unescape c of
              None \<Rightarrow> None
            | Some d \<Rightarrow> lex (InString (acc @ [d])) cs))"
| "lex (Unicode acc hs) (c # cs) =
     (case hexValue c of
        None \<Rightarrow> None
      | Some h \<Rightarrow>
          (if length hs < 3 then lex (Unicode acc (hs @ [h])) cs
           else (let u = foldl (\<lambda>a d. 16 * a + d) 0 (hs @ [h])
                 in if u < 256 then lex (InString (acc @ [char_of u])) cs else None)))"

text \<open>The number grammar: \<open>-?(0|[1-9][0-9]*)(\.[0-9]+)?([eE][+-]?[0-9]+)?\<close>.\<close>

definition isExponent :: "string \<Rightarrow> bool" where
  "isExponent s =
     (case s of
        [] \<Rightarrow> True
      | e # t \<Rightarrow>
          (e = CHR ''e'' \<or> e = CHR ''E'') \<and>
          (let ds = (case t of [] \<Rightarrow> [] | g # u \<Rightarrow> if g = CHR ''+'' \<or> g = CHR ''-'' then u else t)
           in ds \<noteq> [] \<and> list_all isDigit ds))"

definition isFraction :: "string \<Rightarrow> bool" where
  "isFraction s =
     (case s of
        [] \<Rightarrow> True
      | d # t \<Rightarrow>
          if d = CHR ''.'' then takeWhile isDigit t \<noteq> [] \<and> isExponent (dropWhile isDigit t)
          else isExponent s)"

definition isNumberLiteral :: "string \<Rightarrow> bool" where
  "isNumberLiteral s =
     (let u = (case s of [] \<Rightarrow> [] | g # t \<Rightarrow> if g = CHR ''-'' then t else s);
          ip = takeWhile isDigit u
      in ip \<noteq> [] \<and> (take 1 ip \<noteq> ''0'' \<or> length ip = 1) \<and> isFraction (dropWhile isDigit u))"

text \<open>Defining a property on an object under construction: an existing key keeps its
  place and takes the new value, a new key goes last.\<close>

fun setProp :: "(string \<times> 'v) list \<Rightarrow> string \<Rightarrow> 'v \<Rightarrow> (string \<times> 'v) list" where
  "setProp [] k v = [(k, v)]"
| "setProp (p # ps) k v = (if fst p = k then (k, v) # ps else p # setProp ps k v)"

datatype 'n frame =
    FArr "'n json list"
  | FObj "(string \<times> 'n json) list"
  | FKey "(string \<times> 'n json) list" string

datatype expect = EValue | EValueOrClose | EKeyOrClose | EKey | EColon | ECommaOrClose

datatype 'n pstate = PFail | PDone "'n json" | PRun expect "'n frame list"

fun deliver :: "'n json \<Rightarrow> 'n frame list \<Rightarrow> 'n pstate" where
  "deliver v [] = PDone v"
| "deliver v (FArr es # st) = PRun ECommaOrClose (FArr (es @ [v]) # st)"
| "deliver v (FKey kvs k # st) = PRun ECommaOrClose (FObj (setProp kvs k v) # st)"
| "deliver v (FObj kvs # st) = PFail"

definition wantsValue :: "expect \<Rightarrow> bool" where
  "wantsValue e \<longleftrightarrow> e = EValue \<or> e = EValueOrClose"

fun scalar :: "'n engine \<Rightarrow> token \<Rightarrow> 'n json option" where
  "scalar eng (TString s) = Some (JStr s)"
| "scalar eng (TNumber l) = (if isNumberLiteral l then Some (JNum (num_of eng l)) else None)"
| "scalar eng (TWord w) =
     (if w = ''true'' then Some (JBool True)
      else if w = ''false'' then Some (JBool False)
      else if w = ''null'' then Some JNull
      else None)"
| "scalar eng _ = None"

fun step :: "'n engine \<Rightarrow> 'n pstate \<Rightarrow> token \<Rightarrow> 'n pstate" where
  "step eng (PRun e st) TLBracket = (if wantsValue e then PRun EValueOrClose (FArr [] # st) else PFail)"
| "step eng (PRun e st) TLBrace = (if wantsValue e then PRun EKeyOrClose (FObj [] # st) else PFail)"
| "step eng (PRun e (FArr es # st)) TRBracket =
     (if e = EValueOrClose \<or> e = ECommaOrClose then deliver (JArr es) st else PFail)"
| "step eng (PRun e (FObj kvs # st)) TRBrace =
     (if e = EKeyOrClose \<or> e = ECommaOrClose then deliver (JObj kvs) st else PFail)"
| "step eng (PRun e (FArr es # st)) TComma =
     (if e = ECommaOrClose then PRun EValue (FArr es # st) else PFail)"
| "step eng (PRun e (FObj kvs # st)) TComma =
     (if e = ECommaOrClose then PRun EKey (FObj kvs # st) else PFail)"
| "step eng (PRun e (FKey kvs k # st)) TColon =
     (if e = EColon then PRun EValue (FKey kvs k # st) else PFail)"
| "step eng (PRun e (FObj kvs # st)) (TString s) =
     (if e = EKeyOrClose \<or> e = EKey then PRun EColon (FKey kvs s # st) else PFail)"
| "step eng (PRun e st) t =
     (if wantsValue e then (case scalar eng t of None \<Rightarrow> PFail | Some v \<Rightarrow> deliver v st)
      else PFail)"
| "step eng PFail t = PFail"
| "step eng (PDone v) t = PFail"

definition JSON_parse :: "'n engine \<Rightarrow> string \<Rightarrow> js_error + 'n json" where
  "JSON_parse eng text =
     (case lex Between text of
        None \<Rightarrow> Inl (SyntaxError (syntax_msg eng text))
      | Some toks \<Rightarrow>
          (case foldl (step eng) (PRun EValue []) toks of
             PDone v \<Rightarrow> Inr v
           | _ \<Rightarrow> Inl (SyntaxError (syntax_msg eng text))))"

section \<open>Coercions of the engine\<close>

text \<open>\<open>truthy\<close> is ToBoolean, \<open>js_or a b\<close> is \<open>a || b\<close>, and \<open>orElse a d\<close> is \<open>a || d\<close>
  for a right operand that is a defined value.\<close>

fun truthy :: "'n engine \<Rightarrow> 'n json option \<Rightarrow> bool" where
  "truthy eng None = False"
| "truthy eng (Some JNull) = False"
| "truthy eng (Some (JBool b)) = b"
| "truthy eng (Some (JNum n)) = num_truthy eng n"
| "truthy eng (Some (JStr s)) = (s \<noteq> [])"
| "truthy eng (Some (JArr xs)) = True"
| "truthy eng (Some (JObj kvs)) = True"

definition js_or :: "'n engine \<Rightarrow> 'n json option \<Rightarrow> 'n json option \<Rightarrow> 'n json option" where
  "js_or eng a b = (if truthy eng a then a else b)"

definition orElse :: "'n engine \<Rightarrow> 'n json option \<Rightarrow> 'n json \<Rightarrow> 'n json" where
  "orElse eng a d = (case a of None \<Rightarrow> d | Some v \<Rightarrow> if truthy eng a then v else d)"

text \<open>\<open>member v k\<close> is the read \<open>v?.k\<close>: \<open>undefined\<close> on \<open>null\<close>, and on every other value
  the same as \<open>v.k\<close>. The names the server reads (\<open>uuid\<close>, \<open>hostname\<close>, \<open>platform\<close>,
  \<open>status\<close>, \<open>spec\<close>, \<open>detail\<close>, \<open>mdm\<close>, \<open>hosts\<close>, \<open>data\<close>, ...) are on no prototype and are
  no array index, so only an object has them, as own properties.\<close>

fun member :: "'n json \<Rightarrow> string \<Rightarrow> 'n json option" where
  "member (JObj kvs) k = map_of kvs k"
| "member _ k = None"

fun isObjectType :: "'n json \<Rightarrow> bool" where
  "isObjectType JNull = True"
| "isObjectType (JArr xs) = True"
| "isObjectType (JObj kvs) = True"
| "isObjectType _ = False"

definition digit :: "nat \<Rightarrow> char" where
  "digit d = ''0123456789'' ! d"

function show_nat :: "nat \<Rightarrow> string" where
  "show_nat n = (if n < 10 then [digit n] else show_nat (n div 10) @ [digit (n mod 10)])"
  by pat_completeness auto
termination
  by (relation "measure (\<lambda>n. n)") auto

text \<open>
  ToString of a value and \<open>Array.prototype.join\<close>. An array is joined with commas; in a
  join \<open>null\<close> and \<open>undefined\<close> give the empty string. An object goes through
  OrdinaryToPrimitive: an own property \<open>toString\<close> of a decoded object is never callable,
  and \<open>valueOf\<close> is then either an own property that is not callable or the inherited one,
  which returns the object itself, so the conversion throws a TypeError; without an own
  \<open>toString\<close> the inherited one answers \<open>[object Object]\<close>.
\<close>

fun toStr :: "'n engine \<Rightarrow> 'n json \<Rightarrow> js_error + string"
  and joinVals :: "'n engine \<Rightarrow> string \<Rightarrow> 'n json list \<Rightarrow> js_error + string" where
  "toStr eng JNull = Inr ''null''"
| "toStr eng (JBool b) = Inr (if b then ''true'' else ''false'')"
| "toStr eng (JNum n) = Inr (num_str eng n)"
| "toStr eng (JStr s) = Inr s"
| "toStr eng (JArr xs) = joinVals eng '','' xs"
| "toStr eng (JObj kvs) =
     (if map_of kvs ''toString'' = None then Inr ''[object Object]''
      else Inl (TypeError ''Cannot convert object to primitive value''))"
| "joinVals eng sep [] = Inr []"
| "joinVals eng sep (x # xs) =
     (case (if x = JNull then Inr [] else toStr eng x) of
        Inl e \<Rightarrow> Inl e
      | Inr t \<Rightarrow>
          (if xs = [] then Inr t
           else (case joinVals eng sep xs of Inl e \<Rightarrow> Inl e | Inr r \<Rightarrow> Inr (t @ sep @ r))))"

text \<open>\<open>String(v)\<close>, also of \<open>undefined\<close>, and \<open>join\<close> on an array that may hold
  \<open>undefined\<close>.\<close>

definition String :: "'n engine \<Rightarrow> 'n json option \<Rightarrow> js_error + string" where
  "String eng v = (case v of None \<Rightarrow> Inr ''undefined'' | Some x \<Rightarrow> toStr eng x)"

fun joinStr :: "'n engine \<Rightarrow> string \<Rightarrow> 'n json option list \<Rightarrow> js_error + string" where
  "joinStr eng sep [] = Inr []"
| "joinStr eng sep (x # xs) =
     (case (case x of None \<Rightarrow> Inr [] | Some v \<Rightarrow> if v = JNull then Inr [] else toStr eng v) of
        Inl e \<Rightarrow> Inl e
      | Inr t \<Rightarrow>
          (if xs = [] then Inr t
           else (case joinStr eng sep xs of Inl e \<Rightarrow> Inl e | Inr r \<Rightarrow> Inr (t @ sep @ r))))"

section \<open>The record normaliser: extractHostsFromOutput\<close>

text \<open>The own enumerable properties a spread \<open>{...host}\<close> copies: those of an object, the
  indices of an array, the indices of a string with its one-character strings, and nothing
  of any other value.\<close>

fun ownProps :: "'n json \<Rightarrow> (string \<times> 'n json) list" where
  "ownProps (JObj kvs) = kvs"
| "ownProps (JArr xs) = zip (map show_nat [0..<length xs]) xs"
| "ownProps (JStr s) = zip (map show_nat [0..<length s]) (map (\<lambda>c. JStr [c]) s)"
| "ownProps _ = []"

definition specOf :: "'n engine \<Rightarrow> 'n json \<Rightarrow> 'n json" where
  "specOf eng host =
     (if truthy eng (Some host) \<and> isObjectType host
      then orElse eng (member host ''spec'') (JObj []) else JObj [])"

definition detailOf :: "'n engine \<Rightarrow> 'n json \<Rightarrow> 'n json" where
  "detailOf eng host =
     (if truthy eng (Some host) \<and> isObjectType host
      then orElse eng (member host ''detail'') (JObj []) else JObj [])"

definition mdmOf :: "'n engine \<Rightarrow> 'n json \<Rightarrow> 'n json" where
  "mdmOf eng host = orElse eng (member (specOf eng host) ''mdm'') (JObj [])"

definition uuidOf :: "'n engine \<Rightarrow> 'n json \<Rightarrow> 'n json" where
  "uuidOf eng host =
     orElse eng
       (js_or eng (js_or eng (js_or eng (js_or eng
          (member host ''uuid'')
          (member (specOf eng host) ''uuid''))
          (member (specOf eng host) ''hardware_uuid''))
          (member (detailOf eng host) ''uuid''))
          (member (detailOf eng host) ''hardware_uuid''))
       (JStr [])"

definition hostnameOf :: "'n engine \<Rightarrow> 'n json \<Rightarrow> 'n json" where
  "hostnameOf eng host =
     orElse eng
       (js_or eng (js_or eng (js_or eng (js_or eng
          (member host ''hostname'')
          (member (specOf eng host) ''hostname''))
          (member (specOf eng host) ''computer_name''))
          (member (specOf eng host) ''display_name''))
          (member (detailOf eng host) ''hostname''))
       (JStr [])"

definition platformOf :: "'n engine \<Rightarrow> 'n json \<Rightarrow> 'n json" where
  "platformOf eng host =
     orElse eng
       (js_or eng (js_or eng
          (member host ''platform'')
          (member (specOf eng host) ''platform''))
          (member (specOf eng host) ''osquery_platform''))
       (JStr [])"

definition statusOf :: "'n engine \<Rightarrow> 'n json \<Rightarrow> 'n json" where
  "statusOf eng host =
     orElse eng
       (js_or eng (js_or eng
          (member host ''status'')
          (member (specOf eng host) ''status''))
          (member (mdmOf eng host) ''enrollment_status''))
       (JStr [])"

text \<open>The object literal: the spread first, then the four fields, each
  \<open>String(x || '')\<close>, evaluated in the order written; the first conversion that throws ends
  the call.\<close>

definition normalizeHost :: "'n engine \<Rightarrow> 'n json \<Rightarrow> js_error + 'n json" where
  "normalizeHost eng host =
     (case String eng (Some (orElse eng (Some (uuidOf eng host)) (JStr []))) of
        Inl e \<Rightarrow> Inl e
      | Inr u \<Rightarrow>
     (case String eng (Some (orElse eng (Some (hostnameOf eng host)) (JStr []))) of
        Inl e \<Rightarrow> Inl e
      | Inr h \<Rightarrow>
     (case String eng (Some (orElse eng (Some (platformOf eng host)) (JStr []))) of
        Inl e \<Rightarrow> Inl e
      | Inr p \<Rightarrow>
     (case String eng (Some (orElse eng (Some (statusOf eng host)) (JStr []))) of
        Inl e \<Rightarrow> Inl e
      | Inr st \<Rightarrow>
          Inr (JObj (setProp (setProp (setProp (setProp (ownProps host)
                 ''uuid'' (JStr u)) ''hostname'' (JStr h)) ''platform'' (JStr p))
                 ''status'' (JStr st)))))))"

fun normalizeMany :: "'n engine \<Rightarrow> 'n json list \<Rightarrow> js_error + 'n json list" where
  "normalizeMany eng [] = Inr []"
| "normalizeMany eng (item # items) =
     (case normalizeHost eng item of
        Inl e \<Rightarrow> Inl e
      | Inr h \<Rightarrow> (case normalizeMany eng items of Inl e \<Rightarrow> Inl e | Inr hs \<Rightarrow> Inr (h # hs)))"

fun isArray :: "'n json option \<Rightarrow> bool" where
  "isArray (Some (JArr xs)) = True"
| "isArray _ = False"

fun elements :: "'n json option \<Rightarrow> 'n json list" where
  "elements (Some (JArr xs)) = xs"
| "elements _ = []"

definition extractHostsFromOutput :: "'n engine \<Rightarrow> 'n json \<Rightarrow> js_error + 'n json list" where
  "extractHostsFromOutput eng parsedOutput =
     (if isArray (Some parsedOutput) then normalizeMany eng (elements (Some parsedOutput))
      else if truthy eng (Some parsedOutput) \<and> isObjectType parsedOutput then
        (if isArray (member parsedOutput ''hosts'')
         then normalizeMany eng (elements (member parsedOutput ''hosts''))
         else if isArray (member parsedOutput ''data'')
         then normalizeMany eng (elements (member parsedOutput ''data''))
         else normalizeMany eng [parsedOutput])
      else Inr [])"

section \<open>Validation helpers\<close>

text \<open>\<open>s.startsWith(p)\<close> and \<open>s.includes(t)\<close> on strings.\<close>

definition startsWith :: "string \<Rightarrow> string \<Rightarrow> bool" where
  "startsWith s p \<longleftrightarrow> take (length p) s = p"

fun str_includes :: "string \<Rightarrow> string \<Rightarrow> bool" where
  "str_includes [] t = (t = [])"
| "str_includes (c # cs) t = (startsWith (c # cs) t \<or> str_includes cs t)"

definition isAlnum :: "char \<Rightarrow> bool" where
  "isAlnum c \<longleftrightarrow> isLower c \<or> isUpper c \<or> isDigit c"

text \<open>The character classes \<open>[a-zA-Z0-9._-]\<close>, \<open>[0-9a-fA-F-]\<close> and \<open>[a-zA-Z0-9._\- ]\<close>.\<close>

definition isNameChar :: "char \<Rightarrow> bool" where
  "isNameChar c \<longleftrightarrow> isAlnum c \<or> c = CHR ''.'' \<or> c = CHR ''_'' \<or> c = CHR ''-''"

definition isUuidChar :: "char \<Rightarrow> bool" where
  "isUuidChar c \<longleftrightarrow> hexValue c \<noteq> None \<or> c = CHR ''-''"

definition isHostIdChar :: "char \<Rightarrow> bool" where
  "isHostIdChar c \<longleftrightarrow> isNameChar c \<or> c = CHR '' ''"

text \<open>\<open>/^[a-zA-Z0-9._-]+$/\<close> on a string: without the \<open>m\<close> flag the anchors are the two
  ends of the text.\<close>

definition matchesName :: "string \<Rightarrow> bool" where
  "matchesName s \<longleftrightarrow> s \<noteq> [] \<and> list_all isNameChar s"

text \<open>\<open>/^[^\s@]+@[^\s@]+\.[^\s@]+$/\<close>: exactly one \<open>@\<close>, no white space, a nonempty local
  part, and after the \<open>@\<close> a dot with a character before it and a character after it.\<close>

definition matchesEmail :: "string \<Rightarrow> bool" where
  "matchesEmail s =
     (case split s CHR ''@'' of
        [a, r] \<Rightarrow>
          a \<noteq> [] \<and> \<not> list_ex isWhiteSpace a \<and> \<not> list_ex isWhiteSpace r \<and>
          list_ex (\<lambda>i. r ! i = CHR ''.'') [1..<length r - 1]
      | _ \<Rightarrow> False)"

text \<open>\<open>RegExp.prototype.test\<close> converts its argument with ToString first, which can
  throw.\<close>

definition isValidEmail :: "'n engine \<Rightarrow> 'n json option \<Rightarrow> js_error + bool" where
  "isValidEmail eng str =
     (case String eng str of Inl e \<Rightarrow> Inl e | Inr s \<Rightarrow> Inr (matchesEmail s))"

definition isValidContext :: "'n engine \<Rightarrow> 'n json option \<Rightarrow> js_error + bool" where
  "isValidContext eng str =
     (case String eng (Some (orElse eng str (JStr ''default''))) of
        Inl e \<Rightarrow> Inl e
      | Inr s \<Rightarrow> Inr (matchesName s))"

definition isValidUUID :: "string \<Rightarrow> bool" where
  "isValidUUID s \<longleftrightarrow> length s = 36 \<and> list_all isUuidChar s"

text \<open>\<open>str.includes('..')\<close> is the string method on a string and the array method on an
  array; no other value has a callable \<open>includes\<close>.\<close>

definition isValidFilename :: "'n engine \<Rightarrow> 'n json option \<Rightarrow> js_error + bool" where
  "isValidFilename eng str =
     (case String eng str of
        Inl e \<Rightarrow> Inl e
      | Inr s \<Rightarrow>
          (if \<not> matchesName s then Inr False
           else (case str of
                   Some (JStr t) \<Rightarrow> Inr (\<not> str_includes t ''..'')
                 | Some (JArr xs) \<Rightarrow> Inr (\<not> List.member xs (JStr ''..''))
                 | _ \<Rightarrow> Inl (TypeError ''str.includes is not a function''))))"

fun isValidHostIdentifier :: "'n json \<Rightarrow> bool" where
  "isValidHostIdentifier (JStr s) =
     (if trim s = [] then False
      else if isValidUUID (trim s) then True
      else list_all isHostIdChar (trim s))"
| "isValidHostIdentifier _ = False"

section \<open>The process invoker and the routes\<close>

text \<open>
  What a handler does to the outside is a list of effects, in order: lines written to the
  console and child processes started. A handler ends with a response sent through \<open>res\<close>
  (\<open>Inr\<close>) or with an exception that nothing in the server catches (\<open>Inl\<close>); the
  response of a handler is the one the callback of \<open>execFile\<close> sends.

  \<open>execFile\<close> is the runtime's (Node's \<open>child_process\<close>). It throws at once, a
  TypeError with the code \<open>ERR_INVALID_ARG_VALUE\<close>, when the file is empty or the file or a
  string argument holds a NUL character, and then starts no process. Otherwise it starts
  the process; what the process does is the world's answer. On exit code 0 the callback gets
  \<open>(null, stdout, stderr)\<close>. On every other end the exit handler first builds the command
  line, the file and \<open>args.join(' ')\<close> of the arguments as given, and the callback gets the
  error of the runtime if there is one (a failed spawn, an exceeded buffer), else a new
  error whose message is \<open>Command failed:\<close>, the command line, a newline and the standard
  error.
\<close>

datatype 'n effect =
    ConsoleLog string
  | ConsoleError string
  | ConsoleErrorWith string js_error
  | ExecFile string "'n json option list"

datatype 'n response = Response nat "'n json"

datatype ending = Succeeded | ExitedNonZero | Errored string

record outcome =
  ending :: ending
  stdout :: string
  stderr :: string

record 'n world =
  FLEET_CTL_PATH :: string
  PAYLOADS_DIR :: string
  engine :: "'n engine"
  parse :: "string \<Rightarrow> js_error + 'n json"
  execFile :: "string \<Rightarrow> 'n json option list \<Rightarrow> outcome"
  existsSync :: "string \<Rightarrow> bool"
  path_join :: "string \<Rightarrow> string \<Rightarrow> string"

type_synonym 'n handled = "'n effect list \<times> (js_error + 'n response)"

definition reject :: "nat \<Rightarrow> string \<Rightarrow> 'n handled" where
  "reject code msg =
     ([], Inr (Response code (JObj [(''status'', JStr ''error''), (''message'', JStr msg)])))"

definition throw :: "js_error \<Rightarrow> 'n handled" where
  "throw e = ([], Inl e)"

definition safeArgs :: "'n json option list \<Rightarrow> 'n json option list" where
  "safeArgs args =
     map (\<lambda>index. if 0 < index \<and> args ! (index - 1) = Some (JStr ''--password'')
                   then Some (JStr ''******'') else args ! index)
         [0..<length args]"

fun hasNul :: "'n json option \<Rightarrow> bool" where
  "hasNul (Some (JStr s)) = List.member s (CHR 0x00)"
| "hasNul _ = False"

definition commandLine :: "'n engine \<Rightarrow> string \<Rightarrow> 'n json option list \<Rightarrow> js_error + string" where
  "commandLine eng file args =
     (if args = [] then Inr file
      else (case joinStr eng '' '' args of
              Inl e \<Rightarrow> Inl e
            | Inr joined \<Rightarrow> Inr (file @ '' '' @ joined)))"

text \<open>A call of \<open>execFile\<close> ends in one of three ways: it throws and starts nothing; it
  starts the process and the exit handler throws, which nothing catches; or it starts the
  process and calls back with the message of the error (if any), the standard output and
  the standard error.\<close>

datatype started =
    Threw js_error
  | Uncaught js_error
  | CalledBack "string option" string string

definition execFileCall :: "'n world \<Rightarrow> 'n json option list \<Rightarrow> started" where
  "execFileCall w args =
     (if FLEET_CTL_PATH w = [] \<or> List.member (FLEET_CTL_PATH w) (CHR 0x00) \<or> list_ex hasNul args
      then Threw (TypeError ''ERR_INVALID_ARG_VALUE'')
      else
        (let out = execFile w (FLEET_CTL_PATH w) args in
         case ending out of
           Succeeded \<Rightarrow> CalledBack None (stdout out) (stderr out)
         | ExitedNonZero \<Rightarrow>
             (case commandLine (engine w) (FLEET_CTL_PATH w) args of
                Inl e \<Rightarrow> Uncaught e
              | Inr cmd \<Rightarrow>
                  CalledBack (Some (''Command failed: '' @ cmd @ [CHR 0x0A] @ stderr out))
                    (stdout out) (stderr out))
         | Errored msg \<Rightarrow>
             (case commandLine (engine w) (FLEET_CTL_PATH w) args of
                Inl e \<Rightarrow> Uncaught e
              | Inr cmd \<Rightarrow> CalledBack (Some msg) (stdout out) (stderr out))))"

definition runFleetCommand :: "'n world \<Rightarrow> 'n json option list \<Rightarrow> 'n handled" where
  "runFleetCommand w args =
     (case joinStr (engine w) '' '' (safeArgs args) of
        Inl e \<Rightarrow> throw e
      | Inr shown \<Rightarrow>
          (let logged = ConsoleLog (''Executing: '' @ FLEET_CTL_PATH w @ '' '' @ shown);
               spawned = ExecFile (FLEET_CTL_PATH w) args
           in case execFileCall w args of
                Threw e \<Rightarrow> ([logged], Inl e)
              | Uncaught e \<Rightarrow> ([logged, spawned], Inl e)
              | CalledBack (Some msg) printed complaint \<Rightarrow>
                  ([logged, spawned, ConsoleError (''Command failed: '' @ msg)],
                   Inr (Response 500 (JObj
                     [(''status'', JStr ''error''),
                      (''message'', JStr ''Command execution failed''),
                      (''details'', JStr (if complaint \<noteq> [] then complaint else msg))])))
              | CalledBack None printed complaint \<Rightarrow>
                  ([logged, spawned],
                   Inr (Response 200
                     (if List.member args (Some (JStr ''--json''))
                      then (case parsePossibleJson (parse w) printed of
                              Inr jsonOutput \<Rightarrow> JObj [(''status'', JStr ''ok''), (''data'', jsonOutput)]
                            | Inl e \<Rightarrow> JObj [(''status'', JStr ''ok''), (''output'', JStr printed)])
                      else JObj [(''status'', JStr ''ok''), (''output'', JStr printed)])))))"

definition api_config :: "'n world \<Rightarrow> 'n json option \<Rightarrow> 'n json option \<Rightarrow> 'n handled" where
  "api_config w address context =
     (if \<not> truthy (engine w) address then reject 400 ''Invalid address URL''
      else (case address of
              Some (JStr a) \<Rightarrow>
                (if \<not> startsWith a ''http'' then reject 400 ''Invalid address URL''
                 else (case isValidContext (engine w) context of
                         Inl e \<Rightarrow> throw e
                       | Inr valid \<Rightarrow>
                           if \<not> valid then reject 400 ''Invalid context name''
                           else runFleetCommand w
                                  [Some (JStr ''config''), Some (JStr ''set''),
                                   Some (JStr ''--address''), address,
                                   Some (JStr ''--context''),
                                   Some (orElse (engine w) context (JStr ''default''))]))
            | _ \<Rightarrow> throw (TypeError ''address.startsWith is not a function'')))"

definition api_login ::
  "'n world \<Rightarrow> 'n json option \<Rightarrow> 'n json option \<Rightarrow> 'n json option \<Rightarrow> 'n handled" where
  "api_login w email password context =
     (case isValidEmail (engine w) email of
        Inl e \<Rightarrow> throw e
      | Inr valid \<Rightarrow>
          if \<not> valid then reject 400 ''Invalid email format''
          else if \<not> truthy (engine w) password then reject 400 ''Password required''
          else runFleetCommand w
                 [Some (JStr ''login''), Some (JStr ''--email''), email,
                  Some (JStr ''--password''), password,
                  Some (JStr ''--context''),
                  Some (orElse (engine w) context (JStr ''default''))])"

definition api_hosts :: "'n world \<Rightarrow> 'n json option \<Rightarrow> 'n handled" where
  "api_hosts w query_context =
     (let context = orElse (engine w) query_context (JStr ''default'') in
      case isValidContext (engine w) (Some context) of
        Inl e \<Rightarrow> throw e
      | Inr valid \<Rightarrow>
          if \<not> valid then reject 400 ''Invalid context name''
          else
            (let args = [Some (JStr ''get''), Some (JStr ''hosts''), Some (JStr ''--mdm''),
                         Some (JStr ''--json''), Some (JStr ''--context''), Some context]
             in case joinStr (engine w) '' '' args of
                  Inl e \<Rightarrow> throw e
                | Inr shown \<Rightarrow>
                    (let logged = ConsoleLog (''Executing: '' @ FLEET_CTL_PATH w @ '' '' @ shown);
                         spawned = ExecFile (FLEET_CTL_PATH w) args
                     in case execFileCall w args of
                          Threw e \<Rightarrow> ([logged], Inl e)
                        | Uncaught e \<Rightarrow> ([logged, spawned], Inl e)
                        | CalledBack (Some msg) printed complaint \<Rightarrow>
                            ([logged, spawned, ConsoleError (''Get hosts error: '' @ msg)],
                             Inr (Response 500 (JObj
                               [(''status'', JStr ''error''),
                                (''message'', JStr ''Failed to fetch hosts''),
                                (''details'', JStr (if complaint \<noteq> [] then complaint else msg))])))
                        | CalledBack None printed complaint \<Rightarrow>
                            (case (case parsePossibleJson (parse w) printed of
                                     Inl e \<Rightarrow> Inl e
                                   | Inr parsedOutput \<Rightarrow>
                                       extractHostsFromOutput (engine w) parsedOutput) of
                               Inr hosts \<Rightarrow>
                                 ([logged, spawned],
                                  Inr (Response 200 (JObj
                                    [(''status'', JStr ''ok''), (''hosts'', JArr hosts)])))
                             | Inl e \<Rightarrow>
                                 ([logged, spawned, ConsoleErrorWith ''JSON Parse Error:'' e],
                                  Inr (Response 500 (JObj
                                    [(''status'', JStr ''error''),
                                     (''message'', JStr ''Failed to parse hosts JSON''),
                                     (''details'', JStr (message e @
                                        ''. Raw output (first 400 chars): '' @
                                        slice printed 0 400))])))))))"

definition api_run_command ::
  "'n world \<Rightarrow> 'n json option \<Rightarrow> 'n json option \<Rightarrow> 'n json option \<Rightarrow> 'n handled" where
  "api_run_command w hosts payload context =
     (if \<not> isArray hosts \<or> elements hosts = [] then reject 400 ''No hosts selected''
      else (case isValidContext (engine w) context of
        Inl e \<Rightarrow> throw e
      | Inr valid \<Rightarrow>
          if \<not> valid then reject 400 ''Invalid context name''
          else
            (let invalidHosts = filter (\<lambda>hostId. \<not> isValidHostIdentifier hostId) (elements hosts)
             in if invalidHosts \<noteq> [] then
                  (case joinVals (engine w) '', '' invalidHosts of
                     Inl e \<Rightarrow> throw e
                   | Inr shown \<Rightarrow> reject 400 (''Invalid host identifiers detected: '' @ shown))
                else if \<not> truthy (engine w) payload then reject 400 ''Invalid payload filename''
                else (case isValidFilename (engine w) payload of
                  Inl e \<Rightarrow> throw e
                | Inr named \<Rightarrow>
                    if \<not> named then reject 400 ''Invalid payload filename''
                    else (case payload of
                      Some (JStr name) \<Rightarrow>
                        (let payloadPath = path_join w (PAYLOADS_DIR w) name in
                         if \<not> existsSync w payloadPath then reject 404 ''Payload file not found''
                         else (case joinVals (engine w) '','' (elements hosts) of
                           Inl e \<Rightarrow> throw e
                         | Inr hostList \<Rightarrow>
                             runFleetCommand w
                               [Some (JStr ''mdm''), Some (JStr ''run-command''),
                                Some (JStr ''--payload''), Some (JStr payloadPath),
                                Some (JStr ''--hosts''), Some (JStr hostList),
                                Some (JStr ''--context''),
                                Some (orElse (engine w) context (JStr ''default''))]))
                    | _ \<Rightarrow> throw (TypeError ''The path argument must be of type string''))))))"

section \<open>Definitions used to state the properties\<close>

text \<open>The characters of \<open>s\<close> at the positions \<open>i, ..., j\<close>, both included.\<close>

definition substring :: "string \<Rightarrow> nat \<Rightarrow> nat \<Rightarrow> string" where
  "substring s i j = map (\<lambda>k. s ! k) [i..<Suc j]"

definition isOpening :: "char \<Rightarrow> bool" where
  "isOpening c \<longleftrightarrow> c = CHR ''['' \<or> c = CHR ''{''"

definition isClosing :: "char \<Rightarrow> bool" where
  "isClosing c \<longleftrightarrow> c = CHR '']'' \<or> c = CHR ''}''"

text \<open>The lookup table of the specification: a path of property names read from the
  element. \<open>firstTruthy\<close> is the first candidate that is truthy in the sense of JavaScript
  (\<open>undefined\<close>, \<open>null\<close>, \<open>false\<close>, the number zero and the empty string are passed
  over; every other value is taken, also an empty array), else the empty string.\<close>

fun path :: "'n json \<Rightarrow> string list \<Rightarrow> 'n json option" where
  "path v [] = Some v"
| "path v (k # ks) = (case member v k of None \<Rightarrow> None | Some x \<Rightarrow> path x ks)"

definition firstTruthy :: "'n engine \<Rightarrow> 'n json option list \<Rightarrow> 'n json" where
  "firstTruthy eng candidates =
     (case find (truthy eng) candidates of Some (Some v) \<Rightarrow> v | _ \<Rightarrow> JStr [])"

text \<open>The wording of the specification, "first non-empty match wins": a candidate is empty
  when it is absent, \<open>null\<close> or the empty string, and every other value, also the number
  zero and \<open>false\<close>, is a match.\<close>

fun nonEmpty :: "'n json option \<Rightarrow> bool" where
  "nonEmpty None = False"
| "nonEmpty (Some JNull) = False"
| "nonEmpty (Some (JStr s)) = (s \<noteq> [])"
| "nonEmpty (Some v) = True"

definition firstNonEmpty :: "'n json option list \<Rightarrow> 'n json" where
  "firstNonEmpty candidates =
     (case find nonEmpty candidates of Some (Some v) \<Rightarrow> v | _ \<Rightarrow> JStr [])"

definition idPaths :: "string list list" where
  "idPaths = [[''uuid''], [''spec'', ''uuid''], [''spec'', ''hardware_uuid''],
              [''detail'', ''uuid''], [''detail'', ''hardware_uuid'']]"

definition displayNamePaths :: "string list list" where
  "displayNamePaths = [[''hostname''], [''spec'', ''hostname''], [''spec'', ''computer_name''],
                       [''spec'', ''display_name''], [''detail'', ''hostname'']]"

definition platformPaths :: "string list list" where
  "platformPaths = [[''platform''], [''spec'', ''platform''], [''spec'', ''osquery_platform'']]"

definition statusPaths :: "string list list" where
  "statusPaths = [[''status''], [''spec'', ''status''], [''spec'', ''mdm'', ''enrollment_status'']]"

definition canonicalKeys :: "string list" where
  "canonicalKeys = [''uuid'', ''hostname'', ''platform'', ''status'']"

text \<open>A value in which no object has an own property named \<open>toString\<close>: on such a value
  no string conversion throws.\<close>

fun plain :: "'n json \<Rightarrow> bool"
  and plainList :: "'n json list \<Rightarrow> bool"
  and plainProps :: "(string \<times> 'n json) list \<Rightarrow> bool" where
  "plain (JArr xs) = plainList xs"
| "plain (JObj kvs) = (map_of kvs ''toString'' = None \<and> plainProps kvs)"
| "plain _ = True"
| "plainList [] = True"
| "plainList (x # xs) = (plain x \<and> plainList xs)"
| "plainProps [] = True"
| "plainProps (kv # kvs) = (plain (snd kv) \<and> plainProps kvs)"

text \<open>A request is refused when the handler has no effect on the outside and ends with an
  error: the status 400 with \<open>status: 'error'\<close> in the body, or an exception that leaves the
  handler.\<close>

definition refused :: "'n handled \<Rightarrow> bool" where
  "refused r \<longleftrightarrow>
     fst r = [] \<and>
     (case snd r of
        Inl e \<Rightarrow> True
      | Inr (Response code body) \<Rightarrow> code = 400 \<and> member body ''status'' = Some (JStr ''error''))"

text \<open>The argument vectors of the child processes a handler started.\<close>

fun spawns :: "'n effect list \<Rightarrow> (string \<times> 'n json option list) list" where
  "spawns [] = []"
| "spawns (ExecFile file argv # es) = (file, argv) # spawns es"
| "spawns (e # es) = spawns es"

text \<open>An engine and a world on which the statements are evaluated: the numbers are the
  integers (of a literal its integer part is read, and the examples use integer literals
  only), the message of a SyntaxError quotes the rejected text, the child process prints
  one host, and every payload file exists.\<close>

definition show_int :: "int \<Rightarrow> string" where
  "show_int i = (if i < 0 then CHR ''-'' # show_nat (nat (- i)) else show_nat (nat i))"

definition read_int :: "string \<Rightarrow> int" where
  "read_int l =
     (case l of
        [] \<Rightarrow> 0
      | g # t \<Rightarrow>
          if g = CHR ''-''
          then - int (foldl (\<lambda>a c. 10 * a + (charCode c - 48)) 0 (takeWhile isDigit t))
          else int (foldl (\<lambda>a c. 10 * a + (charCode c - 48)) 0 (takeWhile isDigit l)))"

definition example_engine :: "int engine" where
  "example_engine =
     \<lparr>num_truthy = (\<lambda>n. n \<noteq> 0), num_str = show_int, num_of = read_int,
      syntax_msg = (\<lambda>text. ''Unexpected token in JSON: '' @ text)\<rparr>"

definition example_world :: "int world" where
  \<open>example_world =
     \<lparr>FLEET_CTL_PATH = ''/opt/fleetctl'', PAYLOADS_DIR = ''/opt/payloads'',
      engine = example_engine, parse = JSON_parse example_engine,
      execFile = (\<lambda>file args. \<lparr>ending = Succeeded, stdout = ''[{"uuid":"u1"}]'', stderr = []\<rparr>),
      existsSync = (\<lambda>p. True),
      path_join = (\<lambda>dir name. dir @ ''/'' @ name)\<rparr>\<close>

text \<open>The same world with a child process that exits with a code other than 0.\<close>

definition failing_world :: "int world" where
  "failing_world =
     example_world\<lparr>execFile :=
       (\<lambda>file args. \<lparr>ending = ExitedNonZero, stdout = [], stderr = ''bad credentials''\<rparr>)\<rparr>"

section \<open>Facts about the string operations\<close>

lemma dropWhile_nil_iff: "dropWhile p xs = [] \<longleftrightarrow> (\<forall>x\<in>set xs. p x)"
  by (induction xs) auto

lemma trim_empty_iff: "trim s = [] \<longleftrightarrow> (\<forall>c\<in>set s. isWhiteSpace c)"
proof -
  have "trim s = [] \<longleftrightarrow> (\<forall>c\<in>set (dropWhile isWhiteSpace s). isWhiteSpace c)"
    by (simp add: trim_def dropWhile_nil_iff)
  also have "\<dots> \<longleftrightarrow> dropWhile isWhiteSpace s = []"
  proof
    assume h: "\<forall>c\<in>set (dropWhile isWhiteSpace s). isWhiteSpace c"
    show "dropWhile isWhiteSpace s = []"
    proof (rule ccontr)
      assume "dropWhile isWhiteSpace s \<noteq> []"
      then have "\<not> isWhiteSpace (hd (dropWhile isWhiteSpace s))" by (rule hd_dropWhile)
      moreover have "hd (dropWhile isWhiteSpace s) \<in> set (dropWhile isWhiteSpace s)"
        using \<open>dropWhile isWhiteSpace s \<noteq> []\<close> by simp
      ultimately show False using h by blast
    qed
  next
    assume "dropWhile isWhiteSpace s = []"
    then show "\<forall>c\<in>set (dropWhile isWhiteSpace s). isWhiteSpace c"
      by (simp only: list.set ball_empty)
  qed
  also have "\<dots> \<longleftrightarrow> (\<forall>c\<in>set s. isWhiteSpace c)" by (rule dropWhile_nil_iff)
  finally show ?thesis .
qed


lemma parseLines_some:
  "\<exists>l\<in>set ls. \<exists>e. P l = Inl e \<Longrightarrow> parseLines P ls acc = None"
  by (induction ls arbitrary: acc) (auto split: sum.splits)

lemma indexOf_absent: "c \<notin> set s \<Longrightarrow> indexOf s c = - 1"
  by (induction s) (auto simp: Let_def)

lemma indexOf_present:
  "c \<in> set s \<Longrightarrow> 0 \<le> indexOf s c \<and> nat (indexOf s c) < length s \<and> s ! nat (indexOf s c) = c
     \<and> (\<forall>j < nat (indexOf s c). s ! j \<noteq> c)"
proof (induction s)
  case Nil then show ?case by simp
next
  case (Cons x xs)
  show ?case
  proof (cases "x = c")
    case True then show ?thesis by simp
  next
    case False
    with Cons.prems have "c \<in> set xs" by simp
    from Cons.IH[OF this] have ih: "0 \<le> indexOf xs c" "nat (indexOf xs c) < length xs"
      "xs ! nat (indexOf xs c) = c" "\<forall>j < nat (indexOf xs c). xs ! j \<noteq> c" by auto
    have eq: "indexOf (x # xs) c = indexOf xs c + 1" using False ih(1) by (simp add: Let_def)
    have n: "nat (indexOf xs c + 1) = Suc (nat (indexOf xs c))" using ih(1) by simp
    show ?thesis unfolding eq n using ih False
      by (auto simp: nth_Cons split: nat.splits)
  qed
qed

lemma lastIndexOf_absent: "c \<notin> set s \<Longrightarrow> lastIndexOf s c = - 1"
  by (induction s) (auto simp: Let_def)

lemma lastIndexOf_present:
  "c \<in> set s \<Longrightarrow> 0 \<le> lastIndexOf s c \<and> nat (lastIndexOf s c) < length s \<and> s ! nat (lastIndexOf s c) = c
     \<and> (\<forall>j < length s. nat (lastIndexOf s c) < j \<longrightarrow> s ! j \<noteq> c)"
proof (induction s)
  case Nil then show ?case by simp
next
  case (Cons x xs)
  show ?case
  proof (cases "c \<in> set xs")
    case True
    from Cons.IH[OF this] have ih: "0 \<le> lastIndexOf xs c" "nat (lastIndexOf xs c) < length xs"
      "xs ! nat (lastIndexOf xs c) = c" "\<forall>j < length xs. nat (lastIndexOf xs c) < j \<longrightarrow> xs ! j \<noteq> c" by auto
    have eq: "lastIndexOf (x # xs) c = lastIndexOf xs c + 1" using ih(1) by (simp add: Let_def)
    have n: "nat (lastIndexOf xs c + 1) = Suc (nat (lastIndexOf xs c))" using ih(1) by simp
    show ?thesis unfolding eq n using ih
      by (auto simp: nth_Cons split: nat.splits)
  next
    case False
    then have a: "lastIndexOf xs c = - 1" by (rule lastIndexOf_absent)
    from False Cons.prems have xc: "x = c" by simp
    have eq: "lastIndexOf (x # xs) c = 0" using a xc by (simp add: Let_def)
    show ?thesis unfolding eq using xc False
      by (auto simp: nth_Cons split: nat.splits)
  qed
qed

lemma jsonStart_absent: "\<forall>c\<in>set s. \<not> isOpening c \<Longrightarrow> jsonStart s = - 1"
proof -
  assume h: "\<forall>c\<in>set s. \<not> isOpening c"
  then have "CHR ''['' \<notin> set s" "CHR ''{'' \<notin> set s" by (auto simp: isOpening_def)
  then show ?thesis by (simp add: jsonStart_def indexOf_absent)
qed

lemma jsonStart_earliest:
  assumes "\<exists>c\<in>set s. isOpening c"
  shows "0 \<le> jsonStart s \<and> nat (jsonStart s) < length s \<and> isOpening (s ! nat (jsonStart s))
         \<and> (\<forall>j < nat (jsonStart s). \<not> isOpening (s ! j))"
proof -
  let ?a = "indexOf s CHR ''[''" and ?o = "indexOf s CHR ''{''"
  consider (both) "CHR ''['' \<in> set s" "CHR ''{'' \<in> set s"
    | (arr) "CHR ''['' \<in> set s" "CHR ''{'' \<notin> set s"
    | (obj) "CHR ''['' \<notin> set s" "CHR ''{'' \<in> set s"
    using assms by (auto simp: isOpening_def)
  then show ?thesis
  proof cases
    case both
    note A = indexOf_present[OF both(1)] and O = indexOf_present[OF both(2)]
    have js: "jsonStart s = min ?a ?o" using A O by (simp add: jsonStart_def)
    show ?thesis
    proof (cases "?a \<le> ?o")
      case True
      then have e: "jsonStart s = ?a" using js by simp
      have "\<forall>j < nat ?a. s ! j \<noteq> CHR ''{''" using O True by auto
      then show ?thesis unfolding e using A by (auto simp: isOpening_def)
    next
      case False
      then have e: "jsonStart s = ?o" using js by simp
      have "\<forall>j < nat ?o. s ! j \<noteq> CHR ''[''" using A False by auto
      then show ?thesis unfolding e using O by (auto simp: isOpening_def)
    qed
  next
    case arr
    note A = indexOf_present[OF arr(1)]
    have e: "jsonStart s = ?a" using A indexOf_absent[OF arr(2)] by (simp add: jsonStart_def)
    have "\<forall>j < length s. s ! j \<noteq> CHR ''{''" using arr(2) by (metis nth_mem)
    then show ?thesis unfolding e using A by (auto simp: isOpening_def)
  next
    case obj
    note O = indexOf_present[OF obj(2)]
    have e: "jsonStart s = ?o" using O indexOf_absent[OF obj(1)] by (simp add: jsonStart_def)
    have "\<forall>j < length s. s ! j \<noteq> CHR ''[''" using obj(1) by (metis nth_mem)
    then show ?thesis unfolding e using O by (auto simp: isOpening_def)
  qed
qed

lemma jsonEnd_absent: "\<forall>c\<in>set s. \<not> isClosing c \<Longrightarrow> jsonEnd s = - 1"
proof -
  assume h: "\<forall>c\<in>set s. \<not> isClosing c"
  then have "CHR '']'' \<notin> set s" "CHR ''}'' \<notin> set s" by (auto simp: isClosing_def)
  then show ?thesis by (simp add: jsonEnd_def lastIndexOf_absent)
qed

lemma jsonEnd_latest:
  assumes "\<exists>c\<in>set s. isClosing c"
  shows "0 \<le> jsonEnd s \<and> nat (jsonEnd s) < length s \<and> isClosing (s ! nat (jsonEnd s))
         \<and> (\<forall>j < length s. nat (jsonEnd s) < j \<longrightarrow> \<not> isClosing (s ! j))"
proof -
  let ?a = "lastIndexOf s CHR '']''" and ?o = "lastIndexOf s CHR ''}''"
  have je: "jsonEnd s = max ?a ?o" by (simp add: jsonEnd_def)
  consider (both) "CHR '']'' \<in> set s" "CHR ''}'' \<in> set s"
    | (arr) "CHR '']'' \<in> set s" "CHR ''}'' \<notin> set s"
    | (obj) "CHR '']'' \<notin> set s" "CHR ''}'' \<in> set s"
    using assms by (auto simp: isClosing_def)
  then show ?thesis
  proof cases
    case both
    note A = lastIndexOf_present[OF both(1)] and O = lastIndexOf_present[OF both(2)]
    show ?thesis
    proof (cases "?o \<le> ?a")
      case True
      then have e: "jsonEnd s = ?a" using je by simp
      have "\<forall>j < length s. nat ?a < j \<longrightarrow> s ! j \<noteq> CHR ''}''" using O True by auto
      then show ?thesis unfolding e using A by (auto simp: isClosing_def)
    next
      case False
      then have e: "jsonEnd s = ?o" using je by simp
      have "\<forall>j < length s. nat ?o < j \<longrightarrow> s ! j \<noteq> CHR '']''" using A False by auto
      then show ?thesis unfolding e using O by (auto simp: isClosing_def)
    qed
  next
    case arr
    note A = lastIndexOf_present[OF arr(1)]
    have e: "jsonEnd s = ?a" using A lastIndexOf_absent[OF arr(2)] je by simp
    have "\<forall>j < length s. s ! j \<noteq> CHR ''}''" using arr(2) by (metis nth_mem)
    then show ?thesis unfolding e using A by (auto simp: isClosing_def)
  next
    case obj
    note O = lastIndexOf_present[OF obj(2)]
    have e: "jsonEnd s = ?o" using O lastIndexOf_absent[OF obj(1)] je by simp
    have "\<forall>j < length s. s ! j \<noteq> CHR '']''" using obj(1) by (metis nth_mem)
    then show ?thesis unfolding e using O by (auto simp: isClosing_def)
  qed
qed

lemma slice_substring:
  assumes "0 \<le> b" "b < e" "nat e < length s"
  shows "slice s b (e + 1) = substring s (nat b) (nat e)"
proof -
  have 1: "slice s b (e + 1) = take (nat (e + 1 - b)) (drop (nat b) s)"
    using assms by (simp add: slice_def Let_def min_def)
  have len: "length (take (nat (e + 1 - b)) (drop (nat b) s)) = nat (e + 1 - b)"
    using assms by auto
  show ?thesis unfolding 1 substring_def
  proof (rule nth_equalityI)
    show "length (take (nat (e + 1 - b)) (drop (nat b) s)) = length (map ((!) s) [nat b..<Suc (nat e)])"
      using assms by auto
  next
    fix i assume "i < length (take (nat (e + 1 - b)) (drop (nat b) s))"
    then have i: "i < nat (e + 1 - b)" using len by simp
    then have "nat b + i < Suc (nat e)" using assms by linarith
    then show "take (nat (e + 1 - b)) (drop (nat b) s) ! i = map ((!) s) [nat b..<Suc (nat e)] ! i"
      using i assms by (simp del: upt_Suc)
  qed
qed


lemma parsePossibleJson_fallback:
  assumes "trim raw \<noteq> []" "P (trim raw) = Inl firstErr"
  shows "parsePossibleJson P raw =
          (case (if 1 < length (nonBlankLines (trim raw)) then parseLines P (nonBlankLines (trim raw)) [] else None) of
             Some parsedLines \<Rightarrow> Inr (JArr parsedLines)
           | None \<Rightarrow> extractEmbedded P firstErr (trim raw))"
  using assms by (simp add: parsePossibleJson_def Let_def)

section \<open>Evaluation on concrete texts\<close>

lemmas string_defs = trim_def isWhiteSpace_def nonBlankLines_def extractEmbedded_def jsonStart_def
  jsonEnd_def slice_def parsePossibleJson_def Let_def

lemmas json_defs = JSON_parse_def isJsonSpace_def isDigit_def isLower_def charCode_def punctuation_def
  isNumChar_def wantsValue_def isNumberLiteral_def isFraction_def isExponent_def unescape_def hexValue_def

lemmas example_defs = example_engine_def show_int_def read_int_def

section \<open>The output interpreter\<close>

text \<open>
  Claim C1. The specification asks that, when all three decode strategies fail, the error
  carries the message of the first (direct) decode, also when a span from the first opening
  bracket to the last closing bracket was found and its text does not decode. The code wraps
  the first message only when no span is found; \<open>JSON.parse(candidate)\<close> is called
  unguarded inside the \<open>catch\<close> block, so the error of the candidate leaves
  \<open>parsePossibleJson\<close> as it is. On the output \<open>a{b}\<close>: the direct decode fails, there is
  one line only, the span is \<open>{b}\<close>, and whatever error the built-in throws on \<open>{b}\<close> is
  the error of the call.
\<close>

theorem embedded_span_error_escapes:
  assumes "P ''a{b}'' = Inl firstErr" and "P ''{b}'' = Inl spanErr"
  shows "parsePossibleJson P ''a{b}'' = Inl spanErr"
  using assms by (simp add: string_defs split_def)

theorem embedded_span_error_escapes_witness:
  "JSON_parse example_engine ''a{b}'' = Inl (SyntaxError ''Unexpected token in JSON: a{b}'')
   \<and> JSON_parse example_engine ''{b}'' = Inl (SyntaxError ''Unexpected token in JSON: {b}'')
   \<and> parsePossibleJson (JSON_parse example_engine) ''a{b}'' = Inl (SyntaxError ''Unexpected token in JSON: {b}'')
   \<and> parsePossibleJson (JSON_parse example_engine) ''a{b}''
        \<noteq> Inl (Error (''No valid JSON found in fleetctl output ('' @ ''Unexpected token in JSON: a{b}'' @ '')''))"
proof -
  have h1: "JSON_parse example_engine ''a{b}'' = Inl (SyntaxError ''Unexpected token in JSON: a{b}'')"
    by (simp add: json_defs example_defs)
  have h2: "JSON_parse example_engine ''{b}'' = Inl (SyntaxError ''Unexpected token in JSON: {b}'')"
    by (simp add: json_defs example_defs)
  from embedded_span_error_escapes[OF h1 h2] h1 h2 show ?thesis by simp
qed

text \<open>
  Claim C2 (amended). An output that is empty or consists of white space only is rejected
  with the Error whose message is \<open>Empty output from fleetctl\<close>, whatever the decoder
  \<open>P\<close> is: the check comes before any decode. The message has a capital E; the string
  \<open>empty output\<close> of the specification does not occur in it.
\<close>

theorem empty_output_rejected:
  assumes "\<forall>c\<in>set rawOutput. isWhiteSpace c"
  shows "trim rawOutput = [] \<and> parsePossibleJson P rawOutput = Inl (Error ''Empty output from fleetctl'')"
  using assms by (simp add: trim_empty_iff parsePossibleJson_def)

theorem empty_output_rejected_witness:
  "trim ''  \<newline> '' = [] \<and>
   parsePossibleJson (JSON_parse example_engine) ''  \<newline> '' = Inl (Error ''Empty output from fleetctl'')"
proof -
  have h: "\<forall>c\<in>set ''  \<newline> ''. isWhiteSpace c" by (simp add: isWhiteSpace_def)
  from empty_output_rejected[OF h, of "JSON_parse example_engine"] show ?thesis .
qed

text \<open>The claim as stated fails on the empty output: the message does not contain
  \<open>empty output\<close>.\<close>

theorem empty_output_message_counterexample:
  "parsePossibleJson (JSON_parse example_engine) [] = Inl (Error ''Empty output from fleetctl'')
   \<and> \<not> str_includes ''Empty output from fleetctl'' ''empty output''"
  by (simp add: string_defs startsWith_def)



text \<open>
  Claim C5. When the direct decode and the NDJSON decode both fail, the extraction starts
  at the earliest \<open>[\<close> or \<open>{\<close> of the trimmed output (\<open>-1\<close> when there is none) and
  ends at the latest \<open>]\<close> or \<open>}\<close>; when the start is found and the end is strictly after it,
  the result is the decode of exactly the characters from start to end, both included. The
  output \<open>Warning: deprecated\<close>, newline, \<open>[{"a":1}]\<close>, newline gives the array
  \<open>[{"a":1}]\<close>.
\<close>

theorem embedded_json_extraction:
  assumes "trimmed = trim raw" and "trimmed \<noteq> []" and "P trimmed = Inl firstErr"
    and "\<not> (1 < length (nonBlankLines trimmed) \<and> (\<forall>l\<in>set (nonBlankLines trimmed). \<exists>v. P l = Inr v))"
  shows \<open>(if \<exists>c\<in>set trimmed. isOpening c
          then 0 \<le> jsonStart trimmed \<and> nat (jsonStart trimmed) < length trimmed
               \<and> isOpening (trimmed ! nat (jsonStart trimmed))
               \<and> (\<forall>j < nat (jsonStart trimmed). \<not> isOpening (trimmed ! j))
          else jsonStart trimmed = - 1)
       \<and> (if \<exists>c\<in>set trimmed. isClosing c
          then 0 \<le> jsonEnd trimmed \<and> nat (jsonEnd trimmed) < length trimmed
               \<and> isClosing (trimmed ! nat (jsonEnd trimmed))
               \<and> (\<forall>j < length trimmed. nat (jsonEnd trimmed) < j \<longrightarrow> \<not> isClosing (trimmed ! j))
          else jsonEnd trimmed = - 1)
       \<and> (0 \<le> jsonStart trimmed \<and> jsonStart trimmed < jsonEnd trimmed \<longrightarrow>
            parsePossibleJson P raw
              = P (substring trimmed (nat (jsonStart trimmed)) (nat (jsonEnd trimmed))))
       \<and> parsePossibleJson (JSON_parse eng) ''Warning: deprecated\<newline>[{"a":1}]\<newline>''
            = Inr (JArr [JObj [(''a'', JNum (num_of eng ''1''))]])\<close>
proof -
  have s: "if \<exists>c\<in>set trimmed. isOpening c
          then 0 \<le> jsonStart trimmed \<and> nat (jsonStart trimmed) < length trimmed
               \<and> isOpening (trimmed ! nat (jsonStart trimmed))
               \<and> (\<forall>j < nat (jsonStart trimmed). \<not> isOpening (trimmed ! j))
          else jsonStart trimmed = - 1"
  proof (cases "\<exists>c\<in>set trimmed. isOpening c")
    case True
    show ?thesis by (subst if_P[OF True]) (rule jsonStart_earliest[OF True])
  next
    case False
    then have "\<forall>c\<in>set trimmed. \<not> isOpening c" by blast
    then show ?thesis by (subst if_not_P[OF False]) (rule jsonStart_absent)
  qed
  have e: "if \<exists>c\<in>set trimmed. isClosing c
          then 0 \<le> jsonEnd trimmed \<and> nat (jsonEnd trimmed) < length trimmed
               \<and> isClosing (trimmed ! nat (jsonEnd trimmed))
               \<and> (\<forall>j < length trimmed. nat (jsonEnd trimmed) < j \<longrightarrow> \<not> isClosing (trimmed ! j))
          else jsonEnd trimmed = - 1"
  proof (cases "\<exists>c\<in>set trimmed. isClosing c")
    case True
    show ?thesis by (subst if_P[OF True]) (rule jsonEnd_latest[OF True])
  next
    case False
    then have "\<forall>c\<in>set trimmed. \<not> isClosing c" by blast
    then show ?thesis by (subst if_not_P[OF False]) (rule jsonEnd_absent)
  qed
  have ne: "trim raw \<noteq> []" and fe: "P (trim raw) = Inl firstErr" using assms(1,2,3) by simp_all
  from ne fe have fb: "parsePossibleJson P raw =
          (case (if 1 < length (nonBlankLines (trim raw)) then parseLines P (nonBlankLines (trim raw)) [] else None) of
             Some parsedLines \<Rightarrow> Inr (JArr parsedLines)
           | None \<Rightarrow> extractEmbedded P firstErr (trim raw))"
    by (rule parsePossibleJson_fallback)
  have nd: "(if 1 < length (nonBlankLines (trim raw)) then parseLines P (nonBlankLines (trim raw)) [] else None) = None"
  proof (cases "1 < length (nonBlankLines (trim raw))")
    case True
    with assms(4) have "\<exists>l\<in>set (nonBlankLines (trim raw)). \<exists>e. P l = Inl e"
      unfolding assms(1) by (metis sum.exhaust)
    then show ?thesis using True by (simp add: parseLines_some)
  next
    case False then show ?thesis by simp
  qed
  have r: "parsePossibleJson P raw = extractEmbedded P firstErr trimmed"
    using fb nd assms(1) by simp
  have x: "0 \<le> jsonStart trimmed \<and> jsonStart trimmed < jsonEnd trimmed \<longrightarrow>
            parsePossibleJson P raw
              = P (substring trimmed (nat (jsonStart trimmed)) (nat (jsonEnd trimmed)))"
  proof
    assume a: "0 \<le> jsonStart trimmed \<and> jsonStart trimmed < jsonEnd trimmed"
    then have "0 \<le> jsonEnd trimmed" by simp
    then have "\<exists>c\<in>set trimmed. isClosing c" using jsonEnd_absent[of trimmed] by force
    then have "nat (jsonEnd trimmed) < length trimmed" using e by simp
    with a have "slice trimmed (jsonStart trimmed) (jsonEnd trimmed + 1)
        = substring trimmed (nat (jsonStart trimmed)) (nat (jsonEnd trimmed))"
      by (simp add: slice_substring)
    with a r show "parsePossibleJson P raw
              = P (substring trimmed (nat (jsonStart trimmed)) (nat (jsonEnd trimmed)))"
      by (simp add: extractEmbedded_def)
  qed
  have ex: \<open>parsePossibleJson (JSON_parse eng) ''Warning: deprecated\<newline>[{"a":1}]\<newline>''
            = Inr (JArr [JObj [(''a'', JNum (num_of eng ''1''))]])\<close>
    by (simp add: string_defs json_defs)
  from s e x ex show ?thesis by blast
qed

theorem embedded_json_extraction_witness:
  \<open>''Warning: deprecated\<newline>[{"a":1}]'' = trim ''Warning: deprecated\<newline>[{"a":1}]\<newline>''
   \<and> JSON_parse example_engine ''Warning: deprecated\<newline>[{"a":1}]''
       = Inl (SyntaxError ''Unexpected token in JSON: Warning: deprecated\<newline>[{"a":1}]'')
   \<and> JSON_parse example_engine ''Warning: deprecated''
       = Inl (SyntaxError ''Unexpected token in JSON: Warning: deprecated'')
   \<and> jsonStart ''Warning: deprecated\<newline>[{"a":1}]'' = 20
   \<and> jsonEnd ''Warning: deprecated\<newline>[{"a":1}]'' = 28
   \<and> substring ''Warning: deprecated\<newline>[{"a":1}]'' 20 28 = ''[{"a":1}]''
   \<and> parsePossibleJson (JSON_parse example_engine) ''Warning: deprecated\<newline>[{"a":1}]\<newline>''
       = JSON_parse example_engine ''[{"a":1}]''
   \<and> JSON_parse example_engine ''[{"a":1}]'' = Inr (JArr [JObj [(''a'', JNum 1)]])\<close>
proof -
  let ?P = "JSON_parse example_engine"
  let ?r = \<open>''Warning: deprecated\<newline>[{"a":1}]\<newline>''\<close>
  let ?t = \<open>''Warning: deprecated\<newline>[{"a":1}]''\<close>
  have t: "?t = trim ?r" by (simp add: string_defs)
  have ne: "?t \<noteq> []" by simp
  have ft: \<open>?P ?t = Inl (SyntaxError ''Unexpected token in JSON: Warning: deprecated\<newline>[{"a":1}]'')\<close>
    by (simp add: json_defs example_defs)
  have l: \<open>nonBlankLines ?t = [''Warning: deprecated'', ''[{"a":1}]'']\<close> by (simp add: string_defs)
  have w: \<open>?P ''Warning: deprecated'' = Inl (SyntaxError ''Unexpected token in JSON: Warning: deprecated'')\<close>
    by (simp add: json_defs example_defs)
  have nd: "\<not> (1 < length (nonBlankLines ?t) \<and> (\<forall>l\<in>set (nonBlankLines ?t). \<exists>v. ?P l = Inr v))"
    using w by (simp only: l) simp
  have s: "jsonStart ?t = 20" by (simp add: string_defs)
  have e: "jsonEnd ?t = 28" by (simp add: string_defs)
  have sub: \<open>substring ?t 20 28 = ''[{"a":1}]''\<close> by (simp add: substring_def upt_rec)
  have v: \<open>?P ''[{"a":1}]'' = Inr (JArr [JObj [(''a'', JNum 1)]])\<close> by (simp add: json_defs example_defs)
  from embedded_json_extraction[where P = "?P" and trimmed = "?t" and raw = "?r" and eng = example_engine,
      OF t ne ft nd]
  have \<open>0 \<le> jsonStart ?t \<and> jsonStart ?t < jsonEnd ?t \<longrightarrow>
         parsePossibleJson ?P ?r = ?P (substring ?t (nat (jsonStart ?t)) (nat (jsonEnd ?t)))\<close>
    by blast
  then have \<open>parsePossibleJson ?P ?r = ?P ''[{"a":1}]''\<close>
    by (simp only: s e) (simp add: sub)
  with t ft w s e sub v show ?thesis by blast
qed

section \<open>Facts about the record normaliser\<close>

lemma map_of_setProp: "map_of (setProp kvs k v) k' = (if k' = k then Some v else map_of kvs k')"
  by (induction kvs) auto

lemma path_single: "path v [k] = member v k"
  by (simp split: option.splits)

lemma path_pair: "path v [a, b] = (case member v a of None \<Rightarrow> None | Some x \<Rightarrow> member x b)"
  by (simp split: option.splits)

lemma path_triple:
  "path v [a, b, c] = (case path v [a, b] of None \<Rightarrow> None | Some x \<Rightarrow> member x c)"
  by (simp split: option.splits)

lemma member_specOf: "member (specOf eng host) k = path host [''spec'', k]"
proof (cases host)
  case (JObj kvs)
  show ?thesis
  proof (cases "map_of kvs ''spec''")
    case None
    then show ?thesis using JObj by (simp add: specOf_def orElse_def)
  next
    case (Some v)
    then show ?thesis using JObj by (cases v) (simp_all add: specOf_def orElse_def path_pair del: path.simps)
  qed
qed (simp_all add: specOf_def orElse_def path_pair del: path.simps)

lemma member_detailOf: "member (detailOf eng host) k = path host [''detail'', k]"
proof (cases host)
  case (JObj kvs)
  show ?thesis
  proof (cases "map_of kvs ''detail''")
    case None
    then show ?thesis using JObj by (simp add: detailOf_def orElse_def)
  next
    case (Some v)
    then show ?thesis using JObj by (cases v) (simp_all add: detailOf_def orElse_def path_pair del: path.simps)
  qed
qed (simp_all add: detailOf_def orElse_def path_pair del: path.simps)

lemma member_falsy: "\<not> truthy eng (Some v) \<Longrightarrow> member v k = None"
  by (cases v) simp_all

lemma member_mdmOf: "member (mdmOf eng host) k = path host [''spec'', ''mdm'', k]"
proof -
  note p = path_triple[of host "''spec''" "''mdm''" k]
  show ?thesis
  proof (cases "path host [''spec'', ''mdm'']")
    case None
    then show ?thesis unfolding p by (simp add: mdmOf_def orElse_def member_specOf del: path.simps)
  next
    case (Some m)
    then have ms: "member (specOf eng host) ''mdm'' = Some m" by (simp add: member_specOf del: path.simps)
    show ?thesis unfolding p using Some ms member_falsy[of eng m k]
      by (simp add: mdmOf_def orElse_def del: path.simps)
  qed
qed

lemma truthy_defined: "truthy eng c \<Longrightarrow> \<exists>v. c = Some v"
  by (cases c) simp_all

lemma find_truthy: "find (truthy eng) cs = Some c \<Longrightarrow> \<exists>v. c = Some v \<and> truthy eng (Some v)"
proof -
  assume "find (truthy eng) cs = Some c"
  then have "truthy eng c" by (auto simp: find_Some_iff)
  then show ?thesis using truthy_defined by blast
qed

lemma truthy_js_or: "truthy eng (js_or eng a b) \<longleftrightarrow> truthy eng a \<or> truthy eng b"
  by (simp add: js_or_def)

lemma orElse_js_or:
  "orElse eng (js_or eng a b) d = (if truthy eng a then orElse eng a d else orElse eng b d)"
  by (simp add: js_or_def)

lemma orElse_falsy: "\<not> truthy eng a \<Longrightarrow> orElse eng a d = d"
  by (cases a) (simp_all add: orElse_def)

lemma firstTruthy_Nil: "firstTruthy eng [] = JStr []"
  by (simp add: firstTruthy_def)

lemma firstTruthy_Cons:
  "firstTruthy eng (a # cs) = (if truthy eng a then orElse eng a (JStr []) else firstTruthy eng cs)"
  by (cases a) (simp_all add: firstTruthy_def orElse_def)

lemma chain5:
  "orElse eng (js_or eng (js_or eng (js_or eng (js_or eng a b) c) d) e) (JStr [])
     = firstTruthy eng [a, b, c, d, e]"
  by (simp add: orElse_js_or truthy_js_or firstTruthy_Cons firstTruthy_Nil orElse_falsy)

lemma chain3:
  "orElse eng (js_or eng (js_or eng a b) c) (JStr []) = firstTruthy eng [a, b, c]"
  by (simp add: orElse_js_or truthy_js_or firstTruthy_Cons firstTruthy_Nil orElse_falsy)

lemma uuidOf_firstTruthy: "uuidOf eng host = firstTruthy eng (map (path host) idPaths)"
  unfolding uuidOf_def chain5 member_specOf member_detailOf idPaths_def
  by (simp add: path_single del: path.simps)

lemma hostnameOf_firstTruthy: "hostnameOf eng host = firstTruthy eng (map (path host) displayNamePaths)"
  unfolding hostnameOf_def chain5 member_specOf member_detailOf displayNamePaths_def
  by (simp add: path_single del: path.simps)

lemma platformOf_firstTruthy: "platformOf eng host = firstTruthy eng (map (path host) platformPaths)"
  unfolding platformOf_def chain3 member_specOf platformPaths_def
  by (simp add: path_single del: path.simps)

lemma statusOf_firstTruthy: "statusOf eng host = firstTruthy eng (map (path host) statusPaths)"
  unfolding statusOf_def chain3 member_specOf member_mdmOf statusPaths_def
  by (simp add: path_single del: path.simps)

lemma firstTruthy_cases:
  "firstTruthy eng cs = JStr [] \<or> (Some (firstTruthy eng cs) \<in> set cs \<and> truthy eng (Some (firstTruthy eng cs)))"
proof (cases "find (truthy eng) cs")
  case None then show ?thesis by (simp add: firstTruthy_def)
next
  case (Some c)
  from find_truthy[OF Some] obtain v where v: "c = Some v" "truthy eng (Some v)" by blast
  have "c \<in> set cs" using Some by (metis find_Some_iff nth_mem)
  then show ?thesis using Some v by (simp add: firstTruthy_def)
qed

lemma firstTruthy_none: "\<forall>c\<in>set cs. \<not> truthy eng c \<Longrightarrow> firstTruthy eng cs = JStr []"
proof -
  assume "\<forall>c\<in>set cs. \<not> truthy eng c"
  then have "find (truthy eng) cs = None" by (simp add: find_None_iff)
  then show ?thesis by (simp add: firstTruthy_def)
qed

lemma orElse_firstTruthy: "orElse eng (Some (firstTruthy eng cs)) (JStr []) = firstTruthy eng cs"
  using firstTruthy_cases[of eng cs] by (auto simp: orElse_def)

lemma String_canonical:
  "String eng (Some (orElse eng (Some (uuidOf eng host)) (JStr []))) = toStr eng (uuidOf eng host)"
  "String eng (Some (orElse eng (Some (hostnameOf eng host)) (JStr []))) = toStr eng (hostnameOf eng host)"
  "String eng (Some (orElse eng (Some (platformOf eng host)) (JStr []))) = toStr eng (platformOf eng host)"
  "String eng (Some (orElse eng (Some (statusOf eng host)) (JStr []))) = toStr eng (statusOf eng host)"
  by (simp_all add: String_def uuidOf_firstTruthy hostnameOf_firstTruthy
      platformOf_firstTruthy statusOf_firstTruthy orElse_firstTruthy)

lemma normalizeHost_eq:
  "normalizeHost eng host =
     (case toStr eng (uuidOf eng host) of Inl e \<Rightarrow> Inl e | Inr u \<Rightarrow>
     (case toStr eng (hostnameOf eng host) of Inl e \<Rightarrow> Inl e | Inr h \<Rightarrow>
     (case toStr eng (platformOf eng host) of Inl e \<Rightarrow> Inl e | Inr p \<Rightarrow>
     (case toStr eng (statusOf eng host) of Inl e \<Rightarrow> Inl e | Inr st \<Rightarrow>
        Inr (JObj (setProp (setProp (setProp (setProp (ownProps host)
               ''uuid'' (JStr u)) ''hostname'' (JStr h)) ''platform'' (JStr p))
               ''status'' (JStr st)))))))"
  unfolding normalizeHost_def String_canonical ..

lemma normalizeHost_fields:
  assumes "normalizeHost eng host = Inr h"
  shows "\<exists>u n p st.
           toStr eng (uuidOf eng host) = Inr u \<and> toStr eng (hostnameOf eng host) = Inr n
         \<and> toStr eng (platformOf eng host) = Inr p \<and> toStr eng (statusOf eng host) = Inr st
         \<and> member h ''uuid'' = Some (JStr u) \<and> member h ''hostname'' = Some (JStr n)
         \<and> member h ''platform'' = Some (JStr p) \<and> member h ''status'' = Some (JStr st)
         \<and> (\<forall>k. k \<notin> set canonicalKeys \<longrightarrow> member h k = map_of (ownProps host) k)"
  using assms unfolding normalizeHost_eq
  by (auto split: sum.splits simp: map_of_setProp canonicalKeys_def)

lemma normalizeMany_nth:
  "normalizeMany eng items = Inr hosts \<Longrightarrow>
     length hosts = length items \<and> (\<forall>i<length items. normalizeHost eng (items ! i) = Inr (hosts ! i))"
proof (induction items arbitrary: hosts)
  case Nil then show ?case by simp
next
  case (Cons x xs)
  from Cons.prems obtain h hs where h: "normalizeHost eng x = Inr h"
    and hs: "normalizeMany eng xs = Inr hs" and e: "hosts = h # hs"
    by (auto split: sum.splits)
  from Cons.IH[OF hs] h e show ?case by (auto simp: nth_Cons split: nat.splits)
qed

lemma toStr_plain:
  "plain v \<Longrightarrow> \<exists>s. toStr eng v = Inr s"
  "plainList xs \<Longrightarrow> \<exists>s. joinVals eng sep xs = Inr s"
proof (induction eng v and eng sep xs rule: toStr_joinVals.induct)
  case (8 eng sep x xs)
  then show ?case by (cases "x = JNull"; cases "xs = []") auto
qed auto

lemma plainProps_mem: "plainProps kvs \<Longrightarrow> (k, x) \<in> set kvs \<Longrightarrow> plain x"
  by (induction kvs) auto

lemma plain_member: "plain v \<Longrightarrow> member v k = Some x \<Longrightarrow> plain x"
  by (cases v) (auto dest: map_of_SomeD plainProps_mem)

lemma plain_path: "plain v \<Longrightarrow> path v ks = Some x \<Longrightarrow> plain x"
proof (induction ks arbitrary: v)
  case Nil then show ?case by simp
next
  case (Cons k ks)
  then show ?case by (auto split: option.splits dest: plain_member)
qed

lemma plain_firstTruthy:
  assumes "\<forall>c\<in>set cs. \<forall>x. c = Some x \<longrightarrow> plain x"
  shows "plain (firstTruthy eng cs)"
  using firstTruthy_cases[of eng cs] assms by auto

lemma plain_firstTruthy_paths: "plain host \<Longrightarrow> plain (firstTruthy eng (map (path host) ps))"
  by (rule plain_firstTruthy) (auto dest: plain_path)

lemma normalizeHost_plain: "plain host \<Longrightarrow> \<exists>h. normalizeHost eng host = Inr h"
proof -
  assume p: "plain host"
  from toStr_plain(1)[OF plain_firstTruthy_paths[OF p]]
  obtain u n q st where "toStr eng (uuidOf eng host) = Inr u" "toStr eng (hostnameOf eng host) = Inr n"
    "toStr eng (platformOf eng host) = Inr q" "toStr eng (statusOf eng host) = Inr st"
    unfolding uuidOf_firstTruthy hostnameOf_firstTruthy platformOf_firstTruthy statusOf_firstTruthy
    by metis
  then show ?thesis unfolding normalizeHost_eq by simp
qed

lemma normalizeMany_plain: "plainList items \<Longrightarrow> \<exists>hosts. normalizeMany eng items = Inr hosts"
proof (induction items)
  case Nil then show ?case by simp
next
  case (Cons x xs)
  then obtain h hs where "normalizeHost eng x = Inr h" "normalizeMany eng xs = Inr hs"
    using normalizeHost_plain[of x eng] by auto
  then show ?case by simp
qed

lemma extractHosts_cases:
  "extractHostsFromOutput eng (JArr items) = normalizeMany eng items"
  "map_of kvs ''hosts'' = Some (JArr hs) \<Longrightarrow> extractHostsFromOutput eng (JObj kvs) = normalizeMany eng hs"
  "\<not> isArray (map_of kvs ''hosts'') \<Longrightarrow> map_of kvs ''data'' = Some (JArr ds) \<Longrightarrow>
     extractHostsFromOutput eng (JObj kvs) = normalizeMany eng ds"
  "\<not> isArray (map_of kvs ''hosts'') \<Longrightarrow> \<not> isArray (map_of kvs ''data'') \<Longrightarrow>
     extractHostsFromOutput eng (JObj kvs) = normalizeMany eng [JObj kvs]"
  "extractHostsFromOutput eng JNull = Inr []"
  "extractHostsFromOutput eng (JBool b) = Inr []"
  "extractHostsFromOutput eng (JNum n) = Inr []"
  "extractHostsFromOutput eng (JStr s) = Inr []"
  by (simp_all add: extractHostsFromOutput_def)

lemma isArray_cases: "isArray x \<Longrightarrow> \<exists>xs. x = Some (JArr xs)"
  by (cases x rule: isArray.cases) simp_all

lemma extractHosts_normalizeMany:
  "\<exists>items. extractHostsFromOutput eng parsed = normalizeMany eng items \<and> (plain parsed \<longrightarrow> plainList items)"
proof (cases parsed)
  case (JArr xs)
  then show ?thesis using extractHosts_cases(1)[of eng xs] by auto
next
  case (JObj kvs)
  show ?thesis
  proof (cases "isArray (map_of kvs ''hosts'')")
    case True
    then obtain hs where hs: "map_of kvs ''hosts'' = Some (JArr hs)" using isArray_cases by blast
    have "plain parsed \<longrightarrow> plainList hs"
      using plain_member[of parsed "''hosts''" "JArr hs"] hs JObj by auto
    then show ?thesis using extractHosts_cases(2)[OF hs, of eng] JObj by blast
  next
    case False
    note nh = this
    show ?thesis
    proof (cases "isArray (map_of kvs ''data'')")
      case True
      then obtain ds where ds: "map_of kvs ''data'' = Some (JArr ds)" using isArray_cases by blast
      have "plain parsed \<longrightarrow> plainList ds"
        using plain_member[of parsed "''data''" "JArr ds"] ds JObj by auto
      then show ?thesis using extractHosts_cases(3)[OF nh ds, of eng] JObj by blast
    next
      case False
      note nd = this
      have "plain parsed \<longrightarrow> plainList [parsed]" by simp
      then show ?thesis using extractHosts_cases(4)[OF nh nd, of eng] JObj by blast
    qed
  qed
next
  case JNull then show ?thesis using extractHosts_cases(5)[of eng] by (intro exI[of _ "[]"]) simp
next
  case (JBool b) then show ?thesis using extractHosts_cases(6)[of eng b] by (intro exI[of _ "[]"]) simp
next
  case (JNum n) then show ?thesis using extractHosts_cases(7)[of eng n] by (intro exI[of _ "[]"]) simp
next
  case (JStr s) then show ?thesis using extractHosts_cases(8)[of eng s] by (intro exI[of _ "[]"]) simp
qed

lemmas normalizer_defs = extractHostsFromOutput_def normalizeHost_def String_def uuidOf_def
  hostnameOf_def platformOf_def statusOf_def specOf_def detailOf_def mdmOf_def js_or_def orElse_def

lemma firstTruthy_paths_none:
  "\<forall>p\<in>set ps. \<not> truthy eng (path host p) \<Longrightarrow> firstTruthy eng (map (path host) ps) = JStr []"
  by (rule firstTruthy_none) simp

lemma normalizeHost_defaults:
  assumes "normalizeHost eng item = Inr h"
  shows "((\<forall>p\<in>set idPaths. \<not> truthy eng (path item p)) \<longrightarrow> member h ''uuid'' = Some (JStr []))
       \<and> ((\<forall>p\<in>set displayNamePaths. \<not> truthy eng (path item p)) \<longrightarrow> member h ''hostname'' = Some (JStr []))
       \<and> ((\<forall>p\<in>set platformPaths. \<not> truthy eng (path item p)) \<longrightarrow> member h ''platform'' = Some (JStr []))
       \<and> ((\<forall>p\<in>set statusPaths. \<not> truthy eng (path item p)) \<longrightarrow> member h ''status'' = Some (JStr []))"
proof -
  from normalizeHost_fields[OF assms] obtain u n p st where
    f: "toStr eng (uuidOf eng item) = Inr u" "toStr eng (hostnameOf eng item) = Inr n"
       "toStr eng (platformOf eng item) = Inr p" "toStr eng (statusOf eng item) = Inr st"
       "member h ''uuid'' = Some (JStr u)" "member h ''hostname'' = Some (JStr n)"
       "member h ''platform'' = Some (JStr p)" "member h ''status'' = Some (JStr st)"
    by blast
  show ?thesis
    using f firstTruthy_paths_none[of _ eng item]
    unfolding uuidOf_firstTruthy hostnameOf_firstTruthy platformOf_firstTruthy statusOf_firstTruthy
    by (intro conjI impI) simp_all
qed

lemma normalizeHost_canonical:
  assumes "normalizeHost eng item = Inr h"
  shows "\<forall>k\<in>set canonicalKeys. \<exists>s. member h k = Some (JStr s)"
  using normalizeHost_fields[OF assms] by (auto simp: canonicalKeys_def)

lemma normalizeHost_additive:
  assumes "normalizeHost eng item = Inr h"
  shows "\<forall>k. k \<notin> set canonicalKeys \<longrightarrow> member h k = map_of (ownProps item) k"
  using normalizeHost_fields[OF assms] by blast

section \<open>The record normaliser\<close>

text \<open>
  Claim C6 (amended). The shape of the decoded value is resolved in this order: an array is
  normalised element by element; otherwise an object with an array-valued field \<open>hosts\<close>
  uses that array; otherwise an object with an array-valued field \<open>data\<close> uses that array;
  otherwise an object is itself the single device. Where no object of the value has an own
  property named \<open>toString\<close>, the normalisation returns: one record for each element of
  the sequence it uses, and for the single device a sequence of one element. Every other
  value (\<open>null\<close>, a boolean, a number, a string) gives the empty sequence: the
  single-device branch is guarded by \<open>parsedOutput && typeof parsedOutput === 'object'\<close>.
\<close>

theorem shape_resolution:
  "extractHostsFromOutput eng (JArr items) = normalizeMany eng items
   \<and> (normalizeMany eng items = Inr hosts \<longrightarrow>
        length hosts = length items
        \<and> (\<forall>i<length items. normalizeHost eng (items ! i) = Inr (hosts ! i)))
   \<and> (plainList items \<longrightarrow>
        (\<exists>records. normalizeMany eng items = Inr records \<and> length records = length items))
   \<and> (map_of kvs ''hosts'' = Some (JArr hs) \<longrightarrow>
        extractHostsFromOutput eng (JObj kvs) = normalizeMany eng hs)
   \<and> (\<not> isArray (map_of kvs ''hosts'') \<and> map_of kvs ''data'' = Some (JArr ds) \<longrightarrow>
        extractHostsFromOutput eng (JObj kvs) = normalizeMany eng ds)
   \<and> (\<not> isArray (map_of kvs ''hosts'') \<and> \<not> isArray (map_of kvs ''data'') \<longrightarrow>
        extractHostsFromOutput eng (JObj kvs) = normalizeMany eng [JObj kvs]
        \<and> (\<forall>single. extractHostsFromOutput eng (JObj kvs) = Inr single \<longrightarrow> length single = 1)
        \<and> (plain (JObj kvs) \<longrightarrow>
             (\<exists>dev. extractHostsFromOutput eng (JObj kvs) = Inr [dev]
                      \<and> normalizeHost eng (JObj kvs) = Inr dev)))
   \<and> extractHostsFromOutput eng JNull = Inr []
   \<and> extractHostsFromOutput eng (JBool b) = Inr []
   \<and> extractHostsFromOutput eng (JNum n) = Inr []
   \<and> extractHostsFromOutput eng (JStr s) = Inr []"
proof -
  have one: "\<not> isArray (map_of kvs ''hosts'') \<and> \<not> isArray (map_of kvs ''data'') \<longrightarrow>
        extractHostsFromOutput eng (JObj kvs) = normalizeMany eng [JObj kvs]
        \<and> (\<forall>single. extractHostsFromOutput eng (JObj kvs) = Inr single \<longrightarrow> length single = 1)
        \<and> (plain (JObj kvs) \<longrightarrow>
             (\<exists>dev. extractHostsFromOutput eng (JObj kvs) = Inr [dev]
                      \<and> normalizeHost eng (JObj kvs) = Inr dev))"
  proof (intro impI conjI allI)
    assume a: "\<not> isArray (map_of kvs ''hosts'') \<and> \<not> isArray (map_of kvs ''data'')"
    then show e: "extractHostsFromOutput eng (JObj kvs) = normalizeMany eng [JObj kvs]"
      by (simp add: extractHosts_cases(4))
    {
      fix single assume "extractHostsFromOutput eng (JObj kvs) = Inr single"
      then have "normalizeMany eng [JObj kvs] = Inr single" using e by simp
      from normalizeMany_nth[OF this] show "length single = 1" by simp
    }
    assume "plain (JObj kvs)"
    from normalizeHost_plain[OF this, of eng] obtain dev
      where r: "normalizeHost eng (JObj kvs) = Inr dev" by blast
    then have "normalizeMany eng [JObj kvs] = Inr [dev]" by simp
    with e r show "\<exists>dev. extractHostsFromOutput eng (JObj kvs) = Inr [dev]
                      \<and> normalizeHost eng (JObj kvs) = Inr dev" by simp
  qed
  have many: "normalizeMany eng items = Inr hosts \<longrightarrow>
        length hosts = length items
        \<and> (\<forall>i<length items. normalizeHost eng (items ! i) = Inr (hosts ! i))"
    using normalizeMany_nth[of eng items hosts] by blast
  have returns: "plainList items \<longrightarrow>
        (\<exists>records. normalizeMany eng items = Inr records \<and> length records = length items)"
    using normalizeMany_plain[of items eng] normalizeMany_nth[of eng items] by blast
  show ?thesis
    using one many returns extractHosts_cases(1)[of eng items] extractHosts_cases(2)[of kvs hs eng]
      extractHosts_cases(3)[of kvs ds eng] extractHosts_cases(5)[of eng]
      extractHosts_cases(6)[of eng b] extractHosts_cases(7)[of eng n] extractHosts_cases(8)[of eng s]
    by blast
qed

theorem shape_resolution_witness:
  "extractHostsFromOutput example_engine
     (JObj [(''hosts'', JArr [JObj [(''uuid'', JStr ''u1''), (''hostname'', JStr ''h1''),
                                    (''platform'', JStr ''darwin''), (''status'', JStr ''online'')]])])
     = Inr [JObj [(''uuid'', JStr ''u1''), (''hostname'', JStr ''h1''),
                  (''platform'', JStr ''darwin''), (''status'', JStr ''online'')]]
   \<and> extractHostsFromOutput example_engine
     (JObj [(''data'', JArr [JObj [(''uuid'', JStr ''u1'')]])])
     = Inr [JObj [(''uuid'', JStr ''u1''), (''hostname'', JStr []), (''platform'', JStr []), (''status'', JStr [])]]
   \<and> extractHostsFromOutput example_engine (JObj [(''uuid'', JStr ''u1'')])
     = Inr [JObj [(''uuid'', JStr ''u1''), (''hostname'', JStr []), (''platform'', JStr []), (''status'', JStr [])]]
   \<and> extractHostsFromOutput example_engine (JNum 7) = Inr []"
proof -
  let ?h = "JObj [(''uuid'', JStr ''u1''), (''hostname'', JStr ''h1''),
                  (''platform'', JStr ''darwin''), (''status'', JStr ''online'')] :: int json"
  let ?u = "JObj [(''uuid'', JStr ''u1'')] :: int json"
  have n1: "normalizeMany example_engine [?h] = Inr [?h]"
    by (simp add: normalizer_defs)
  have n2: "normalizeMany example_engine [?u]
     = Inr [JObj [(''uuid'', JStr ''u1''), (''hostname'', JStr []), (''platform'', JStr []), (''status'', JStr [])]]"
    by (simp add: normalizer_defs)
  note a = shape_resolution[where eng = example_engine and kvs = "[(''hosts'', JArr [?h])]" and hs = "[?h]"]
  note b = shape_resolution[where eng = example_engine and kvs = "[(''data'', JArr [?u])]" and ds = "[?u]"]
  note c = shape_resolution[where eng = example_engine and kvs = "[(''uuid'', JStr ''u1'')]" and n = 7]
  have 1: "extractHostsFromOutput example_engine (JObj [(''hosts'', JArr [?h])]) = Inr [?h]"
    using a n1 by simp
  have 2: "extractHostsFromOutput example_engine (JObj [(''data'', JArr [?u])])
     = Inr [JObj [(''uuid'', JStr ''u1''), (''hostname'', JStr []), (''platform'', JStr []), (''status'', JStr [])]]"
    using b n2 by simp
  have 3: "extractHostsFromOutput example_engine ?u
     = Inr [JObj [(''uuid'', JStr ''u1''), (''hostname'', JStr []), (''platform'', JStr []), (''status'', JStr [])]]"
    using c n2 by simp
  have 4: "extractHostsFromOutput example_engine (JNum 7) = Inr []" using c by blast
  from 1 2 3 4 show ?thesis by blast
qed

text \<open>The claim as stated promises a one-element sequence for a string, \<open>null\<close>, a
  boolean and a number, where the code returns the empty sequence; and for a mapping whose
  \<open>uuid\<close> is an object with an own \<open>toString\<close> the call throws and returns no sequence.\<close>

theorem primitive_shape_counterexample:
  "extractHostsFromOutput example_engine (JStr ''mac-01'') = Inr []
   \<and> extractHostsFromOutput example_engine JNull = Inr []
   \<and> extractHostsFromOutput example_engine (JBool True) = Inr []
   \<and> extractHostsFromOutput example_engine (JNum 42) = Inr []
   \<and> extractHostsFromOutput example_engine (JObj [(''uuid'', JObj [(''toString'', JNum 1)])])
       = Inl (TypeError ''Cannot convert object to primitive value'')"
  by (simp add: normalizer_defs)

text \<open>
  Claim C7 (amended). On every decoded value in which no object has an own property named
  \<open>toString\<close>, normalisation returns a sequence, of the length of the sequence it
  resolved. Every returned record has the four canonical fields \<open>uuid\<close>, \<open>hostname\<close>,
  \<open>platform\<close>, \<open>status\<close> as strings, the empty string when no candidate of the field is
  truthy. The fields of the original element under every other name are kept as they are;
  the four canonical names are overwritten by the canonical strings.
\<close>

theorem normalizer_records:
  "(plain parsed \<longrightarrow> (\<exists>hosts. extractHostsFromOutput eng parsed = Inr hosts))
   \<and> (plainList items \<longrightarrow>
        (\<exists>hosts. normalizeMany eng items = Inr hosts \<and> length hosts = length items))
   \<and> (extractHostsFromOutput eng parsed = Inr hosts \<longrightarrow>
        (\<forall>h\<in>set hosts. \<forall>k\<in>set canonicalKeys. \<exists>s. member h k = Some (JStr s)))
   \<and> (normalizeHost eng item = Inr h \<longrightarrow>
        (\<forall>k\<in>set canonicalKeys. \<exists>s. member h k = Some (JStr s))
        \<and> (\<forall>k. k \<notin> set canonicalKeys \<longrightarrow> member h k = map_of (ownProps item) k)
        \<and> ((\<forall>p\<in>set idPaths. \<not> truthy eng (path item p)) \<longrightarrow> member h ''uuid'' = Some (JStr []))
        \<and> ((\<forall>p\<in>set displayNamePaths. \<not> truthy eng (path item p)) \<longrightarrow>
              member h ''hostname'' = Some (JStr []))
        \<and> ((\<forall>p\<in>set platformPaths. \<not> truthy eng (path item p)) \<longrightarrow>
              member h ''platform'' = Some (JStr []))
        \<and> ((\<forall>p\<in>set statusPaths. \<not> truthy eng (path item p)) \<longrightarrow>
              member h ''status'' = Some (JStr [])))"
proof -
  obtain its where its: "extractHostsFromOutput eng parsed = normalizeMany eng its"
    "plain parsed \<longrightarrow> plainList its"
    using extractHosts_normalizeMany[of eng parsed] by blast
  have a: "plain parsed \<longrightarrow> (\<exists>hosts. extractHostsFromOutput eng parsed = Inr hosts)"
    using its normalizeMany_plain[of its eng] by auto
  have b: "plainList items \<longrightarrow>
        (\<exists>hosts. normalizeMany eng items = Inr hosts \<and> length hosts = length items)"
    using normalizeMany_plain[of items eng] normalizeMany_nth[of eng items] by blast
  have c: "extractHostsFromOutput eng parsed = Inr hosts \<longrightarrow>
        (\<forall>h\<in>set hosts. \<forall>k\<in>set canonicalKeys. \<exists>s. member h k = Some (JStr s))"
  proof (intro impI ballI)
    fix h k assume e: "extractHostsFromOutput eng parsed = Inr hosts" and h: "h \<in> set hosts"
      and k: "k \<in> set canonicalKeys"
    from e its have nm: "normalizeMany eng its = Inr hosts" by simp
    from h obtain i where i: "i < length hosts" "hosts ! i = h" by (auto simp: in_set_conv_nth)
    from normalizeMany_nth[OF nm] i have "normalizeHost eng (its ! i) = Inr h" by auto
    from normalizeHost_canonical[OF this] k show "\<exists>s. member h k = Some (JStr s)" by blast
  qed
  have d: "normalizeHost eng item = Inr h \<longrightarrow>
        (\<forall>k\<in>set canonicalKeys. \<exists>s. member h k = Some (JStr s))
        \<and> (\<forall>k. k \<notin> set canonicalKeys \<longrightarrow> member h k = map_of (ownProps item) k)
        \<and> ((\<forall>p\<in>set idPaths. \<not> truthy eng (path item p)) \<longrightarrow> member h ''uuid'' = Some (JStr []))
        \<and> ((\<forall>p\<in>set displayNamePaths. \<not> truthy eng (path item p)) \<longrightarrow>
              member h ''hostname'' = Some (JStr []))
        \<and> ((\<forall>p\<in>set platformPaths. \<not> truthy eng (path item p)) \<longrightarrow>
              member h ''platform'' = Some (JStr []))
        \<and> ((\<forall>p\<in>set statusPaths. \<not> truthy eng (path item p)) \<longrightarrow>
              member h ''status'' = Some (JStr []))"
    using normalizeHost_canonical[of eng item h] normalizeHost_additive[of eng item h]
      normalizeHost_defaults[of eng item h] by blast
  from a b c d show ?thesis by blast
qed

theorem normalizer_records_witness:
  "plain (JArr [JNull, JObj [(''serial'', JStr ''S1''), (''spec'', JStr ''odd'')]] :: int json)
   \<and> extractHostsFromOutput example_engine
       (JArr [JNull, JObj [(''serial'', JStr ''S1''), (''spec'', JStr ''odd'')]])
     = Inr [JObj [(''uuid'', JStr []), (''hostname'', JStr []), (''platform'', JStr []), (''status'', JStr [])],
            JObj [(''serial'', JStr ''S1''), (''spec'', JStr ''odd''),
                  (''uuid'', JStr []), (''hostname'', JStr []), (''platform'', JStr []), (''status'', JStr [])]]"
proof -
  let ?v = "JArr [JNull, JObj [(''serial'', JStr ''S1''), (''spec'', JStr ''odd'')]] :: int json"
  have p: "plain ?v" by simp
  from normalizer_records[of ?v example_engine] p
  obtain hosts where h: "extractHostsFromOutput example_engine ?v = Inr hosts" by blast
  have "extractHostsFromOutput example_engine ?v
     = Inr [JObj [(''uuid'', JStr []), (''hostname'', JStr []), (''platform'', JStr []), (''status'', JStr [])],
            JObj [(''serial'', JStr ''S1''), (''spec'', JStr ''odd''),
                  (''uuid'', JStr []), (''hostname'', JStr []), (''platform'', JStr []), (''status'', JStr [])]]"
    by (simp add: normalizer_defs)
  with p show ?thesis by blast
qed

text \<open>The claim as stated fails twice: an element whose \<open>uuid\<close> is an object with an
  own \<open>toString\<close> makes the whole call throw, and an original field \<open>uuid\<close> holding the
  number 5 is replaced by the string \<open>5\<close>.\<close>

theorem normalizer_records_counterexample:
  "extractHostsFromOutput example_engine (JArr [JObj [(''uuid'', JObj [(''toString'', JNum 1)])]])
     = Inl (TypeError ''Cannot convert object to primitive value'')
   \<and> extractHostsFromOutput example_engine (JArr [JObj [(''uuid'', JNum 5)]])
     = Inr [JObj [(''uuid'', JStr ''5''), (''hostname'', JStr []), (''platform'', JStr []), (''status'', JStr [])]]"
  by (simp add: normalizer_defs example_defs digit_def)

text \<open>
  Claim C8 (amended). Each canonical field is the first truthy candidate in the order of the
  lookup table (\<open>uuid\<close>: \<open>uuid\<close>, \<open>spec.uuid\<close>, \<open>spec.hardware_uuid\<close>, \<open>detail.uuid\<close>,
  \<open>detail.hardware_uuid\<close>; \<open>hostname\<close>: \<open>hostname\<close>, \<open>spec.hostname\<close>,
  \<open>spec.computer_name\<close>, \<open>spec.display_name\<close>, \<open>detail.hostname\<close>; \<open>platform\<close>:
  \<open>platform\<close>, \<open>spec.platform\<close>, \<open>spec.osquery_platform\<close>; \<open>status\<close>: \<open>status\<close>,
  \<open>spec.status\<close>, \<open>spec.mdm.enrollment_status\<close>), else the empty string: a candidate that
  is absent, \<open>null\<close>, \<open>false\<close>, the number zero or the empty string is passed over, and
  every other value is taken, also an empty array. The record holds the conversion of that
  value to a string; the conversion returns whenever no object of the record has an own
  property named \<open>toString\<close>. The record with only \<open>spec.hardware_uuid = X\<close> and
  \<open>spec.computer_name = Y\<close> gets \<open>uuid = X\<close>, \<open>hostname = Y\<close>, \<open>platform\<close> and \<open>status\<close>
  empty.
\<close>

theorem canonical_field_priority:
  "uuidOf eng host = firstTruthy eng (map (path host) idPaths)
   \<and> hostnameOf eng host = firstTruthy eng (map (path host) displayNamePaths)
   \<and> platformOf eng host = firstTruthy eng (map (path host) platformPaths)
   \<and> statusOf eng host = firstTruthy eng (map (path host) statusPaths)
   \<and> (normalizeHost eng host = Inr h \<longrightarrow>
        (\<exists>u n p st.
            toStr eng (firstTruthy eng (map (path host) idPaths)) = Inr u
          \<and> toStr eng (firstTruthy eng (map (path host) displayNamePaths)) = Inr n
          \<and> toStr eng (firstTruthy eng (map (path host) platformPaths)) = Inr p
          \<and> toStr eng (firstTruthy eng (map (path host) statusPaths)) = Inr st
          \<and> member h ''uuid'' = Some (JStr u) \<and> member h ''hostname'' = Some (JStr n)
          \<and> member h ''platform'' = Some (JStr p) \<and> member h ''status'' = Some (JStr st)))
   \<and> (plain host \<longrightarrow> (\<exists>normalized. normalizeHost eng host = Inr normalized))
   \<and> normalizeHost eng
        (JObj [(''spec'', JObj [(''hardware_uuid'', JStr ''X''), (''computer_name'', JStr ''Y'')])])
      = Inr (JObj [(''spec'', JObj [(''hardware_uuid'', JStr ''X''), (''computer_name'', JStr ''Y'')]),
                   (''uuid'', JStr ''X''), (''hostname'', JStr ''Y''),
                   (''platform'', JStr []), (''status'', JStr [])])"
proof -
  have f: "normalizeHost eng host = Inr h \<longrightarrow>
        (\<exists>u n p st.
            toStr eng (firstTruthy eng (map (path host) idPaths)) = Inr u
          \<and> toStr eng (firstTruthy eng (map (path host) displayNamePaths)) = Inr n
          \<and> toStr eng (firstTruthy eng (map (path host) platformPaths)) = Inr p
          \<and> toStr eng (firstTruthy eng (map (path host) statusPaths)) = Inr st
          \<and> member h ''uuid'' = Some (JStr u) \<and> member h ''hostname'' = Some (JStr n)
          \<and> member h ''platform'' = Some (JStr p) \<and> member h ''status'' = Some (JStr st))"
    using normalizeHost_fields[of eng host h]
    unfolding uuidOf_firstTruthy hostnameOf_firstTruthy platformOf_firstTruthy statusOf_firstTruthy
    by blast
  have ex: "normalizeHost eng
        (JObj [(''spec'', JObj [(''hardware_uuid'', JStr ''X''), (''computer_name'', JStr ''Y'')])])
      = Inr (JObj [(''spec'', JObj [(''hardware_uuid'', JStr ''X''), (''computer_name'', JStr ''Y'')]),
                   (''uuid'', JStr ''X''), (''hostname'', JStr ''Y''),
                   (''platform'', JStr []), (''status'', JStr [])])"
    by (simp add: normalizer_defs)
  have returns: "plain host \<longrightarrow> (\<exists>normalized. normalizeHost eng host = Inr normalized)"
    using normalizeHost_plain[of host eng] by blast
  from f ex returns uuidOf_firstTruthy[of eng host] hostnameOf_firstTruthy[of eng host]
    platformOf_firstTruthy[of eng host] statusOf_firstTruthy[of eng host]
  show ?thesis by blast
qed

theorem canonical_field_priority_witness:
  "normalizeHost example_engine
        (JObj [(''spec'', JObj [(''hardware_uuid'', JStr ''X''), (''computer_name'', JStr ''Y'')])])
      = Inr (JObj [(''spec'', JObj [(''hardware_uuid'', JStr ''X''), (''computer_name'', JStr ''Y'')]),
                   (''uuid'', JStr ''X''), (''hostname'', JStr ''Y''),
                   (''platform'', JStr []), (''status'', JStr [])])
   \<and> uuidOf example_engine
        (JObj [(''uuid'', JNum 0), (''spec'', JObj [(''uuid'', JNum 12)]), (''detail'', JObj [(''uuid'', JStr ''D'')])])
      = JNum 12
   \<and> normalizeHost example_engine
        (JObj [(''uuid'', JNum 0), (''spec'', JObj [(''uuid'', JNum 12)]), (''detail'', JObj [(''uuid'', JStr ''D'')])])
      = Inr (JObj [(''uuid'', JStr ''12''), (''spec'', JObj [(''uuid'', JNum 12)]),
                   (''detail'', JObj [(''uuid'', JStr ''D'')]),
                   (''hostname'', JStr []), (''platform'', JStr []), (''status'', JStr [])])"
proof -
  let ?h = "JObj [(''uuid'', JNum 0), (''spec'', JObj [(''uuid'', JNum 12)]),
                  (''detail'', JObj [(''uuid'', JStr ''D'')])] :: int json"
  note t = canonical_field_priority[where eng = example_engine and host = ?h]
  have fm: "firstTruthy example_engine (map (path ?h) idPaths) = JNum 12"
    by (simp add: firstTruthy_def idPaths_def example_defs)
  from t fm have 2: "uuidOf example_engine ?h = JNum 12" by simp
  have 3: "normalizeHost example_engine ?h
      = Inr (JObj [(''uuid'', JStr ''12''), (''spec'', JObj [(''uuid'', JNum 12)]),
                   (''detail'', JObj [(''uuid'', JStr ''D'')]),
                   (''hostname'', JStr []), (''platform'', JStr []), (''status'', JStr [])])"
    by (simp add: normalizer_defs example_defs digit_def)
  from t 2 3 show ?thesis by blast
qed

text \<open>The claim as stated takes the first non-empty match. The number zero and \<open>false\<close> are
  values and not empty, yet the code passes them over: the record \<open>{uuid: 0, spec: {uuid: 12}}\<close>
  gets \<open>uuid = '12'\<close> and not \<open>'0'\<close>, and \<open>{uuid: 0, status: false}\<close> gets both fields
  empty. An empty array is taken, and hides the later match of \<open>{uuid: [], spec: {uuid: 's'}}\<close>.\<close>

theorem first_non_empty_counterexample:
  "firstNonEmpty (map (path (JObj [(''uuid'', JNum (0::int)), (''spec'', JObj [(''uuid'', JNum 12)])])) idPaths)
      = JNum 0
   \<and> toStr example_engine (JNum 0) = Inr ''0''
   \<and> normalizeHost example_engine (JObj [(''uuid'', JNum 0), (''spec'', JObj [(''uuid'', JNum 12)])])
      = Inr (JObj [(''uuid'', JStr ''12''), (''spec'', JObj [(''uuid'', JNum 12)]),
                   (''hostname'', JStr []), (''platform'', JStr []), (''status'', JStr [])])
   \<and> firstNonEmpty (map (path (JObj [(''uuid'', JNum (0::int)), (''status'', JBool False)])) statusPaths)
      = JBool False
   \<and> toStr example_engine (JBool False) = Inr ''false''
   \<and> normalizeHost example_engine (JObj [(''uuid'', JNum 0), (''status'', JBool False)])
      = Inr (JObj [(''uuid'', JStr []), (''status'', JStr []),
                   (''hostname'', JStr []), (''platform'', JStr [])])
   \<and> normalizeHost example_engine (JObj [(''uuid'', JArr []), (''spec'', JObj [(''uuid'', JStr ''s'')])])
      = Inr (JObj [(''uuid'', JStr []), (''spec'', JObj [(''uuid'', JStr ''s'')]),
                   (''hostname'', JStr []), (''platform'', JStr []), (''status'', JStr [])])"
  by (simp add: normalizer_defs example_defs digit_def firstNonEmpty_def idPaths_def statusPaths_def)

section \<open>Facts about the routes\<close>

lemma safeArgs_length: "length (safeArgs args) = length args"
  by (simp add: safeArgs_def)

lemma safeArgs_nth:
  "i < length args \<Longrightarrow>
     safeArgs args ! i = (if 0 < i \<and> args ! (i - 1) = Some (JStr ''--password'')
                          then Some (JStr ''******'') else args ! i)"
proof -
  assume i: "i < length args"
  then have "[0..<length args] ! i = i" by simp
  then show ?thesis using i unfolding safeArgs_def by (simp only: nth_map length_upt diff_zero)
qed

lemma runFleetCommand_throw:
  "joinStr (engine w) '' '' (safeArgs args) = Inl e \<Longrightarrow> runFleetCommand w args = throw e"
  by (simp add: runFleetCommand_def)

lemma runFleetCommand_spawns:
  "spawns (fst (runFleetCommand w args)) = [] \<or>
   spawns (fst (runFleetCommand w args)) = [(FLEET_CTL_PATH w, args)]"
  by (simp add: runFleetCommand_def throw_def Let_def split: sum.splits started.splits option.splits)

lemma runFleetCommand_status:
  "snd (runFleetCommand w args) = Inr (Response code body) \<Longrightarrow> code = 200 \<or> code = 500"
  by (auto simp: runFleetCommand_def throw_def Let_def
      split: sum.splits started.splits option.splits if_splits)

lemma execFileCall_failed:
  assumes "FLEET_CTL_PATH w \<noteq> []" and "\<not> List.member (FLEET_CTL_PATH w) (CHR 0x00)"
    and "\<not> list_ex hasNul args" and "args \<noteq> []"
    and "joinStr (engine w) '' '' args = Inr raw"
    and "ending (execFile w (FLEET_CTL_PATH w) args) = ExitedNonZero"
  shows "execFileCall w args =
           CalledBack (Some (''Command failed: '' @ FLEET_CTL_PATH w @ '' '' @ raw @ [CHR 0x0A] @
                             stderr (execFile w (FLEET_CTL_PATH w) args)))
             (stdout (execFile w (FLEET_CTL_PATH w) args))
             (stderr (execFile w (FLEET_CTL_PATH w) args))"
  using assms by (simp add: execFileCall_def commandLine_def Let_def)

lemma refused_reject: "refused (reject 400 msg)"
  by (simp add: refused_def reject_def)

lemma refused_throw: "refused (throw e)"
  by (simp add: refused_def throw_def)

lemma orElse_truthy: "truthy eng (Some d) \<Longrightarrow> truthy eng (Some (orElse eng a d))"
  by (cases a) (simp_all add: orElse_def)

lemma orElse_idem: "truthy eng (Some d) \<Longrightarrow> orElse eng (Some (orElse eng a d)) d = orElse eng a d"
  using orElse_truthy[of eng d a] by (simp add: orElse_def)

lemma isValidContext_idem:
  "isValidContext eng (Some (orElse eng q (JStr ''default''))) = isValidContext eng q"
  by (simp add: isValidContext_def orElse_idem)

lemma api_config_cases:
  "refused (api_config w address ctx) \<or>
   (truthy (engine w) address \<and> (\<exists>a. address = Some (JStr a) \<and> startsWith a ''http'')
    \<and> isValidContext (engine w) ctx = Inr True
    \<and> api_config w address ctx =
        runFleetCommand w [Some (JStr ''config''), Some (JStr ''set''), Some (JStr ''--address''),
           address, Some (JStr ''--context''), Some (orElse (engine w) ctx (JStr ''default''))])"
proof (cases "truthy (engine w) address")
  case False
  then show ?thesis by (simp add: api_config_def refused_reject)
next
  case True
  show ?thesis
  proof (cases "\<exists>a. address = Some (JStr a)")
    case False
    then have "api_config w address ctx = throw (TypeError ''address.startsWith is not a function'')"
      using True by (auto simp: api_config_def split: option.splits json.splits)
    then show ?thesis by (simp add: refused_throw)
  next
    case str: True
    then obtain a where a: "address = Some (JStr a)" by blast
    show ?thesis
    proof (cases "startsWith a ''http''")
      case False
      then show ?thesis using True a by (simp add: api_config_def refused_reject)
    next
      case sw: True
      show ?thesis
      proof (cases "isValidContext (engine w) ctx")
        case (Inl e)
        then show ?thesis using True a sw by (simp add: api_config_def refused_throw)
      next
        case (Inr valid)
        then show ?thesis using True a sw
          by (cases valid) (simp_all add: api_config_def refused_reject)
      qed
    qed
  qed
qed

lemma api_login_cases:
  "refused (api_login w email password ctx) \<or>
   (isValidEmail (engine w) email = Inr True \<and> truthy (engine w) password
    \<and> api_login w email password ctx =
        runFleetCommand w [Some (JStr ''login''), Some (JStr ''--email''), email,
           Some (JStr ''--password''), password,
           Some (JStr ''--context''), Some (orElse (engine w) ctx (JStr ''default''))])"
proof (cases "isValidEmail (engine w) email")
  case (Inl e)
  then show ?thesis by (simp add: api_login_def refused_throw)
next
  case (Inr valid)
  then show ?thesis
    by (cases valid; cases "truthy (engine w) password") (simp_all add: api_login_def refused_reject)
qed

lemma api_hosts_cases:
  "refused (api_hosts w q) \<or>
   (isValidContext (engine w) q = Inr True
    \<and> (spawns (fst (api_hosts w q)) = [] \<or>
        spawns (fst (api_hosts w q)) =
          [(FLEET_CTL_PATH w,
            [Some (JStr ''get''), Some (JStr ''hosts''), Some (JStr ''--mdm''), Some (JStr ''--json''),
             Some (JStr ''--context''), Some (orElse (engine w) q (JStr ''default''))])])
    \<and> (\<forall>code body. snd (api_hosts w q) = Inr (Response code body) \<longrightarrow> code = 200 \<or> code = 500))"
proof (cases "isValidContext (engine w) q")
  case (Inl e)
  then show ?thesis by (simp add: api_hosts_def isValidContext_idem refused_throw)
next
  case (Inr valid)
  show ?thesis
  proof (cases valid)
    case False
    then show ?thesis using Inr by (simp add: api_hosts_def isValidContext_idem refused_reject)
  next
    case True
    let ?args = "[Some (JStr ''get''), Some (JStr ''hosts''), Some (JStr ''--mdm''), Some (JStr ''--json''),
             Some (JStr ''--context''), Some (orElse (engine w) q (JStr ''default''))]"
    show ?thesis
    proof (cases "joinStr (engine w) '' '' ?args")
      case (Inl e)
      then have "api_hosts w q = throw e" using Inr True
        by (simp add: api_hosts_def isValidContext_idem Let_def)
      then show ?thesis by (simp add: refused_throw)
    next
      case j: (Inr shown)
      have "spawns (fst (api_hosts w q)) = [] \<or> spawns (fst (api_hosts w q)) = [(FLEET_CTL_PATH w, ?args)]"
        using Inr True j
        by (simp add: api_hosts_def isValidContext_idem Let_def
            split: option.splits sum.splits started.splits)
      moreover have "\<forall>code body. snd (api_hosts w q) = Inr (Response code body) \<longrightarrow> code = 200 \<or> code = 500"
        using Inr True j
        by (simp add: api_hosts_def isValidContext_idem Let_def
            split: option.splits sum.splits started.splits)
      ultimately show ?thesis using Inr True by simp
    qed
  qed
qed

lemma api_run_command_cases:
  "refused (api_run_command w hosts payload ctx) \<or>
   (isArray hosts \<and> elements hosts \<noteq> [] \<and> isValidContext (engine w) ctx = Inr True
    \<and> (\<forall>h\<in>set (elements hosts). isValidHostIdentifier h)
    \<and> truthy (engine w) payload \<and> isValidFilename (engine w) payload = Inr True
    \<and> (\<exists>name. payload = Some (JStr name) \<and>
         (api_run_command w hosts payload ctx = reject 404 ''Payload file not found''
          \<or> (\<exists>hostList. api_run_command w hosts payload ctx =
               runFleetCommand w [Some (JStr ''mdm''), Some (JStr ''run-command''),
                  Some (JStr ''--payload''), Some (JStr (path_join w (PAYLOADS_DIR w) name)),
                  Some (JStr ''--hosts''), Some (JStr hostList),
                  Some (JStr ''--context''), Some (orElse (engine w) ctx (JStr ''default''))]))))"
proof (cases "\<not> isArray hosts \<or> elements hosts = []")
  case True
  then show ?thesis by (auto simp: api_run_command_def refused_reject)
next
  case False
  note h = this
  show ?thesis
  proof (cases "isValidContext (engine w) ctx")
    case (Inl e)
    then show ?thesis using h by (simp add: api_run_command_def refused_throw)
  next
    case (Inr valid)
    show ?thesis
    proof (cases valid)
      case False
      then show ?thesis using h Inr by (simp add: api_run_command_def refused_reject)
    next
      case True
      have c: "isValidContext (engine w) ctx = Inr True" using Inr True by simp
      show ?thesis
      proof (cases "filter (\<lambda>hostId. \<not> isValidHostIdentifier hostId) (elements hosts) = []")
        case False
        then show ?thesis using h c
          by (simp add: api_run_command_def Let_def refused_reject refused_throw split: sum.splits)
      next
        case True
        note f = this
        then have allv: "\<forall>h\<in>set (elements hosts). isValidHostIdentifier h"
          by (simp add: filter_empty_conv)
        show ?thesis
        proof (cases "truthy (engine w) payload")
          case False
          then show ?thesis using h c f by (simp add: api_run_command_def Let_def refused_reject)
        next
          case True
          note p = this
          show ?thesis
          proof (cases "isValidFilename (engine w) payload")
            case (Inl e)
            then show ?thesis using h c f p by (simp add: api_run_command_def Let_def refused_throw)
          next
            case (Inr named)
            show ?thesis
            proof (cases named)
              case False
              then show ?thesis using h c f p Inr
                by (simp add: api_run_command_def Let_def refused_reject)
            next
              case True
              have n: "isValidFilename (engine w) payload = Inr True" using Inr True by simp
              show ?thesis
              proof (cases "\<exists>name. payload = Some (JStr name)")
                case False
                then have "api_run_command w hosts payload ctx =
                    throw (TypeError ''The path argument must be of type string'')"
                  using h c f p n
                  by (auto simp: api_run_command_def Let_def split: option.splits json.splits)
                then show ?thesis by (simp add: refused_throw)
              next
                case True
                then obtain name where nm: "payload = Some (JStr name)" by blast
                show ?thesis
                proof (cases "existsSync w (path_join w (PAYLOADS_DIR w) name)")
                  case False
                  then have "api_run_command w hosts payload ctx = reject 404 ''Payload file not found''"
                    using h c f p n nm by (simp add: api_run_command_def Let_def)
                  then show ?thesis using h c allv p n nm by auto
                next
                  case True
                  note ex = this
                  show ?thesis
                  proof (cases "joinVals (engine w) '','' (elements hosts)")
                    case (Inl e)
                    then have "api_run_command w hosts payload ctx = throw e"
                      using h c f p n nm ex by (simp add: api_run_command_def Let_def)
                    then show ?thesis by (simp add: refused_throw)
                  next
                    case (Inr hostList)
                    then have "api_run_command w hosts payload ctx =
                       runFleetCommand w [Some (JStr ''mdm''), Some (JStr ''run-command''),
                          Some (JStr ''--payload''), Some (JStr (path_join w (PAYLOADS_DIR w) name)),
                          Some (JStr ''--hosts''), Some (JStr hostList),
                          Some (JStr ''--context''), Some (orElse (engine w) ctx (JStr ''default''))]"
                      using h c f p n nm ex by (simp add: api_run_command_def Let_def)
                    then show ?thesis using h c allv p n nm by auto
                  qed
                qed
              qed
            qed
          qed
        qed
      qed
    qed
  qed
qed

lemma refused_no_effect: "refused r \<Longrightarrow> fst r = []"
  by (simp add: refused_def)

lemma runFleetCommand_not_reject: "runFleetCommand w args \<noteq> reject 400 msg"
proof
  assume "runFleetCommand w args = reject 400 msg"
  then have "snd (runFleetCommand w args)
      = Inr (Response 400 (JObj [(''status'', JStr ''error''), (''message'', JStr msg)]))"
    by (simp add: reject_def)
  from runFleetCommand_status[OF this] show False by simp
qed

lemma falsy_context_default:
  "ctx = None \<or> ctx = Some JNull \<or> ctx = Some (JStr []) \<Longrightarrow>
     orElse eng ctx (JStr ''default'') = JStr ''default''"
  by (auto simp: orElse_def)

lemmas class_defs = matchesName_def isNameChar_def isAlnum_def isLower_def isUpper_def isDigit_def
  charCode_def

lemma falsy_context_valid:
  "ctx = None \<or> ctx = Some JNull \<or> ctx = Some (JStr []) \<Longrightarrow>
     isValidContext eng ctx = Inr True"
  by (simp add: isValidContext_def falsy_context_default String_def class_defs)

lemma ends_with_default:
  "\<exists>pre. [a, b, c, d, Some (JStr ''--context''), Some (JStr ''default'')]
      = pre @ [Some (JStr ''--context''), Some (JStr ''default'')]"
  "\<exists>pre. [a, b, c, d, e, f, Some (JStr ''--context''), Some (JStr ''default'')]
      = pre @ [Some (JStr ''--context''), Some (JStr ''default'')]"
  "\<exists>pre. [a, b, c, d, e, Some (JStr ''--context''), Some (JStr ''default'')]
      = pre @ [Some (JStr ''--context''), Some (JStr ''default'')]"
    by (rule exI[of _ "[a, b, c, d]"], simp, rule exI[of _ "[a, b, c, d, e, f]"], simp,
        rule exI[of _ "[a, b, c, d, e]"], simp)

lemmas route_eval_defs = String_def class_defs isWhiteSpace_def trim_def reject_def throw_def
  refused_def startsWith_def isHostIdChar_def isValidUUID_def isUuidChar_def hexValue_def

lemma spawns_default:
  assumes "r = runFleetCommand w args \<or> refused r"
    and "\<exists>pre. args = pre @ [Some (JStr ''--context''), Some (JStr ''default'')]"
  shows "\<forall>file argv. (file, argv) \<in> set (spawns (fst r)) \<longrightarrow>
           (\<exists>pre. argv = pre @ [Some (JStr ''--context''), Some (JStr ''default'')])"
  using assms runFleetCommand_spawns[of w args] refused_no_effect[of r] by auto

lemma api_config_not_context_rejected:
  assumes "isValidContext (engine w) ctx = Inr True"
  shows "api_config w address ctx \<noteq> reject 400 ''Invalid context name''"
proof (cases "refused (api_config w address ctx)")
  case False
  then show ?thesis using api_config_cases[of w address ctx] runFleetCommand_not_reject by metis
next
  case True
  show ?thesis using assms
    by (auto simp: api_config_def reject_def throw_def split: option.splits json.splits
        dest: runFleetCommand_not_reject[unfolded reject_def, THEN notE])
qed

lemma runFleetCommand_no_reject: "runFleetCommand w args = reject 400 msg \<Longrightarrow> False"
  using runFleetCommand_not_reject by blast

lemma api_login_not_context_rejected:
  "api_login w email password ctx \<noteq> reject 400 ''Invalid context name''"
proof
  assume a: "api_login w email password ctx = reject 400 ''Invalid context name''"
  from api_login_cases[of w email password ctx] show False
  proof
    assume "refused (api_login w email password ctx)"
    show False using a
      by (auto simp: api_login_def reject_def throw_def split: sum.splits if_splits
          dest: runFleetCommand_no_reject[unfolded reject_def])
  next
    assume "isValidEmail (engine w) email = Inr True \<and> truthy (engine w) password
      \<and> api_login w email password ctx =
        runFleetCommand w [Some (JStr ''login''), Some (JStr ''--email''), email,
           Some (JStr ''--password''), password,
           Some (JStr ''--context''), Some (orElse (engine w) ctx (JStr ''default''))]"
    with a show False using runFleetCommand_no_reject by metis
  qed
qed

lemma api_hosts_not_context_rejected:
  assumes "isValidContext (engine w) q = Inr True"
  shows "api_hosts w q \<noteq> reject 400 ''Invalid context name''"
proof
  assume a: "api_hosts w q = reject 400 ''Invalid context name''"
  show False using a assms
    by (simp add: api_hosts_def isValidContext_idem Let_def reject_def throw_def
        split: sum.splits option.splits started.splits)
qed

lemma api_run_command_not_context_rejected:
  assumes "isValidContext (engine w) ctx = Inr True"
  shows "api_run_command w hosts payload ctx \<noteq> reject 400 ''Invalid context name''"
proof
  assume a: "api_run_command w hosts payload ctx = reject 400 ''Invalid context name''"
  show False using a assms
    by (auto simp: api_run_command_def Let_def reject_def throw_def
        split: sum.splits option.splits json.splits if_splits
        dest: runFleetCommand_no_reject[unfolded reject_def])
qed

text \<open>Every validation a route applies comes before its child process: when one of them
  does not pass, the request is refused.\<close>

lemma validated_inputs_fail_fast:
  "((\<not> (\<exists>a. address = Some (JStr a) \<and> startsWith a ''http'')
      \<or> isValidContext (engine w) ctx \<noteq> Inr True)
     \<longrightarrow> refused (api_config w address ctx))
   \<and> ((isValidEmail (engine w) email \<noteq> Inr True \<or> \<not> truthy (engine w) password)
     \<longrightarrow> refused (api_login w email password ctx))
   \<and> (isValidContext (engine w) query_context \<noteq> Inr True
     \<longrightarrow> refused (api_hosts w query_context))
   \<and> ((\<not> isArray hosts \<or> elements hosts = [] \<or> isValidContext (engine w) ctx \<noteq> Inr True
      \<or> (\<exists>h\<in>set (elements hosts). \<not> isValidHostIdentifier h)
      \<or> \<not> truthy (engine w) payload \<or> isValidFilename (engine w) payload \<noteq> Inr True)
     \<longrightarrow> refused (api_run_command w hosts payload ctx))"
proof (intro conjI impI)
  assume "\<not> (\<exists>a. address = Some (JStr a) \<and> startsWith a ''http'')
      \<or> isValidContext (engine w) ctx \<noteq> Inr True"
  then show "refused (api_config w address ctx)"
    using api_config_cases[of w address ctx] by auto
next
  assume "isValidEmail (engine w) email \<noteq> Inr True \<or> \<not> truthy (engine w) password"
  then show "refused (api_login w email password ctx)"
    using api_login_cases[of w email password ctx] by auto
next
  assume "isValidContext (engine w) query_context \<noteq> Inr True"
  then show "refused (api_hosts w query_context)"
    using api_hosts_cases[of w query_context] by auto
next
  assume "\<not> isArray hosts \<or> elements hosts = [] \<or> isValidContext (engine w) ctx \<noteq> Inr True
      \<or> (\<exists>h\<in>set (elements hosts). \<not> isValidHostIdentifier h)
      \<or> \<not> truthy (engine w) payload \<or> isValidFilename (engine w) payload \<noteq> Inr True"
  then show "refused (api_run_command w hosts payload ctx)"
    using api_run_command_cases[of w hosts payload ctx] by auto
qed

lemma runFleetCommand_failed_effects:
  assumes "joinStr (engine w) '' '' (safeArgs args) = Inr shown"
    and "joinStr (engine w) '' '' args = Inr raw"
    and "FLEET_CTL_PATH w \<noteq> []" and "\<not> List.member (FLEET_CTL_PATH w) (CHR 0x00)"
    and "\<not> list_ex hasNul args" and "args \<noteq> []"
    and "ending (execFile w (FLEET_CTL_PATH w) args) = ExitedNonZero"
  shows "fst (runFleetCommand w args) =
          [ConsoleLog (''Executing: '' @ FLEET_CTL_PATH w @ '' '' @ shown),
           ExecFile (FLEET_CTL_PATH w) args,
           ConsoleError (''Command failed: Command failed: '' @ FLEET_CTL_PATH w @ '' '' @ raw @
                         [CHR 0x0A] @ stderr (execFile w (FLEET_CTL_PATH w) args))]"
  using assms(1) execFileCall_failed[OF assms(3,4,5,6,2,7)]
  by (simp add: runFleetCommand_def Let_def)

lemma runFleetCommand_started:
  assumes "joinStr (engine w) '' '' (safeArgs args) = Inr shown"
    and "FLEET_CTL_PATH w \<noteq> []" and "\<not> List.member (FLEET_CTL_PATH w) (CHR 0x00)"
    and "\<not> list_ex hasNul args"
  shows "spawns (fst (runFleetCommand w args)) = [(FLEET_CTL_PATH w, args)]"
  using assms
  by (simp add: runFleetCommand_def execFileCall_def Let_def
      split: sum.splits ending.splits option.splits)

section \<open>The argument sanitizer and the routes\<close>

text \<open>
  Claim C3. The redacted vector masks the argument after \<open>--password\<close> and the line
  written with \<open>console.log\<close> is built from it, but the redacted vector is not the only
  one that is logged. When the child process exits with a code other than 0, the callback
  writes \<open>Command failed:\<close> and \<open>error.message\<close> with \<open>console.error\<close>, and the message
  the runtime built holds the command line of the arguments as given: the line in the log
  shows every argument unmasked, the password of a login among them.
\<close>

theorem password_reaches_error_log:
  assumes "joinStr (engine w) '' '' (safeArgs args) = Inr shown"
    and "joinStr (engine w) '' '' args = Inr raw"
    and "FLEET_CTL_PATH w \<noteq> []" and "\<not> List.member (FLEET_CTL_PATH w) (CHR 0x00)"
    and "\<not> list_ex hasNul args" and "args \<noteq> []"
    and "ending (execFile w (FLEET_CTL_PATH w) args) = ExitedNonZero"
  shows "length (safeArgs args) = length args
       \<and> (\<forall>i<length args.
             safeArgs args ! i = (if 0 < i \<and> args ! (i - 1) = Some (JStr ''--password'')
                                  then Some (JStr ''******'') else args ! i))
       \<and> fst (runFleetCommand w args) =
          [ConsoleLog (''Executing: '' @ FLEET_CTL_PATH w @ '' '' @ shown),
           ExecFile (FLEET_CTL_PATH w) args,
           ConsoleError (''Command failed: Command failed: '' @ FLEET_CTL_PATH w @ '' '' @ raw @
                         [CHR 0x0A] @ stderr (execFile w (FLEET_CTL_PATH w) args))]"
  using runFleetCommand_failed_effects[OF assms] safeArgs_length[of args] safeArgs_nth[of _ args]
  by blast

theorem password_reaches_error_log_witness:
  "fst (api_login failing_world (Some (JStr ''a@b.io'')) (Some (JStr ''hunter2'')) None)
     = fst (runFleetCommand failing_world
         [Some (JStr ''login''), Some (JStr ''--email''), Some (JStr ''a@b.io''),
          Some (JStr ''--password''), Some (JStr ''hunter2''),
          Some (JStr ''--context''), Some (JStr ''default'')])
   \<and> fst (runFleetCommand failing_world
         [Some (JStr ''login''), Some (JStr ''--email''), Some (JStr ''a@b.io''),
          Some (JStr ''--password''), Some (JStr ''hunter2''),
          Some (JStr ''--context''), Some (JStr ''default'')])
     = [ConsoleLog ''Executing: /opt/fleetctl login --email a@b.io --password ****** --context default'',
        ExecFile ''/opt/fleetctl''
          [Some (JStr ''login''), Some (JStr ''--email''), Some (JStr ''a@b.io''),
           Some (JStr ''--password''), Some (JStr ''hunter2''),
           Some (JStr ''--context''), Some (JStr ''default'')],
        ConsoleError ''Command failed: Command failed: /opt/fleetctl login --email a@b.io --password hunter2 --context default\<newline>bad credentials'']
   \<and> str_includes
        ''Command failed: Command failed: /opt/fleetctl login --email a@b.io --password hunter2 --context default\<newline>bad credentials''
        ''hunter2''"
proof -
  let ?w = failing_world
  let ?args = "[Some (JStr ''login''), Some (JStr ''--email''), Some (JStr ''a@b.io''),
             Some (JStr ''--password''), Some (JStr ''hunter2''),
             Some (JStr ''--context''), Some (JStr ''default'')] :: int json option list"
  have e: "engine ?w = example_engine" and f: "FLEET_CTL_PATH ?w = ''/opt/fleetctl''"
    by (simp_all add: failing_world_def example_world_def)
  have m: "isValidEmail example_engine (Some (JStr ''a@b.io'')) = Inr True"
    by (simp add: isValidEmail_def matchesEmail_def String_def isWhiteSpace_def upt_rec nth_Cons')
  have 0: "fst (api_login ?w (Some (JStr ''a@b.io'')) (Some (JStr ''hunter2'')) None)
     = fst (runFleetCommand ?w ?args)"
    by (simp add: api_login_def e m orElse_def)
  have sa: "safeArgs ?args
     = [Some (JStr ''login''), Some (JStr ''--email''), Some (JStr ''a@b.io''),
        Some (JStr ''--password''), Some (JStr ''******''),
        Some (JStr ''--context''), Some (JStr ''default'')]"
    by (simp add: safeArgs_def upt_rec nth_Cons')
  have j: "joinStr (engine ?w) '' '' (safeArgs ?args)
     = Inr ''login --email a@b.io --password ****** --context default''"
    unfolding sa e by simp
  have r: "joinStr (engine ?w) '' '' ?args
     = Inr ''login --email a@b.io --password hunter2 --context default''"
    unfolding e by simp
  have p1: "FLEET_CTL_PATH ?w \<noteq> []" and p2: "\<not> List.member (FLEET_CTL_PATH ?w) (CHR 0x00)"
    unfolding f by simp_all
  have n: "\<not> list_ex hasNul ?args" by simp
  have ne: "?args \<noteq> []" by simp
  have x: "ending (execFile ?w (FLEET_CTL_PATH ?w) ?args) = ExitedNonZero"
    by (simp add: failing_world_def example_world_def)
  from password_reaches_error_log[OF j r p1 p2 n ne x]
  have "fst (runFleetCommand ?w ?args) =
          [ConsoleLog (''Executing: '' @ FLEET_CTL_PATH ?w @ '' '' @
                       ''login --email a@b.io --password ****** --context default''),
           ExecFile (FLEET_CTL_PATH ?w) ?args,
           ConsoleError (''Command failed: Command failed: '' @ FLEET_CTL_PATH ?w @ '' '' @
                         ''login --email a@b.io --password hunter2 --context default'' @
                         [CHR 0x0A] @ stderr (execFile ?w (FLEET_CTL_PATH ?w) ?args))]"
    by blast
  then have 1: "fst (runFleetCommand ?w ?args)
     = [ConsoleLog ''Executing: /opt/fleetctl login --email a@b.io --password ****** --context default'',
        ExecFile ''/opt/fleetctl'' ?args,
        ConsoleError ''Command failed: Command failed: /opt/fleetctl login --email a@b.io --password hunter2 --context default\<newline>bad credentials'']"
    by (simp add: failing_world_def example_world_def)
  have 2: "str_includes
        ''Command failed: Command failed: /opt/fleetctl login --email a@b.io --password hunter2 --context default\<newline>bad credentials''
        ''hunter2''"
    by (simp add: startsWith_def)
  from 0 1 2 show ?thesis by blast
qed

text \<open>
  Claim C9. The specification asks that a request to any of the four routes with an invalid
  context is answered with an error before a child process is started. \<open>/api/config\<close>,
  \<open>/api/hosts\<close> and \<open>/api/run-command\<close> call \<open>isValidContext\<close> first; \<open>/api/login\<close> never
  does. A login with a valid email, a password and a context that \<open>isValidContext\<close>
  rejects starts the child process, with that context in its argument vector.
\<close>

theorem login_context_not_validated:
  assumes "isValidContext (engine w) ctx = Inr False"
    and "isValidEmail (engine w) email = Inr True" and "truthy (engine w) password"
    and "joinStr (engine w) '' ''
           (safeArgs [Some (JStr ''login''), Some (JStr ''--email''), email,
                      Some (JStr ''--password''), password,
                      Some (JStr ''--context''), Some (orElse (engine w) ctx (JStr ''default''))])
         = Inr shown"
    and "FLEET_CTL_PATH w \<noteq> []" and "\<not> List.member (FLEET_CTL_PATH w) (CHR 0x00)"
    and "\<not> list_ex hasNul [email, password, ctx]"
  shows "spawns (fst (api_login w email password ctx)) =
           [(FLEET_CTL_PATH w,
             [Some (JStr ''login''), Some (JStr ''--email''), email,
              Some (JStr ''--password''), password,
              Some (JStr ''--context''), Some (orElse (engine w) ctx (JStr ''default''))])]
       \<and> orElse (engine w) ctx (JStr ''default'') \<noteq> JStr ''default''"
proof -
  let ?args = "[Some (JStr ''login''), Some (JStr ''--email''), email,
              Some (JStr ''--password''), password,
              Some (JStr ''--context''), Some (orElse (engine w) ctx (JStr ''default''))]"
  have l: "api_login w email password ctx = runFleetCommand w ?args"
    using assms(2,3) by (simp add: api_login_def)
  have d: "orElse (engine w) ctx (JStr ''default'') \<noteq> JStr ''default''"
  proof
    assume "orElse (engine w) ctx (JStr ''default'') = JStr ''default''"
    then have "isValidContext (engine w) ctx = Inr True"
      by (simp add: isValidContext_def String_def class_defs)
    with assms(1) show False by simp
  qed
  have t: "truthy (engine w) ctx" using d orElse_falsy by blast
  then obtain c where c: "ctx = Some c" using truthy_defined by blast
  have o: "orElse (engine w) ctx (JStr ''default'') = c" using t c by (simp add: orElse_def)
  have n: "\<not> list_ex hasNul ?args"
    using assms(7) unfolding o unfolding c by simp
  from runFleetCommand_started[OF assms(4,5,6) n] l d show ?thesis by simp
qed

theorem login_context_not_validated_witness:
  "isValidContext (engine example_world) (Some (JStr ''bad context'')) = Inr False
   \<and> api_hosts example_world (Some (JStr ''bad context'')) = reject 400 ''Invalid context name''
   \<and> api_config example_world (Some (JStr ''https://fleet.example'')) (Some (JStr ''bad context''))
       = reject 400 ''Invalid context name''
   \<and> api_run_command example_world (Some (JArr [JStr ''host-1''])) (Some (JStr ''lock.xml''))
         (Some (JStr ''bad context''))
       = reject 400 ''Invalid context name''
   \<and> spawns (fst (api_login example_world (Some (JStr ''a@b.io'')) (Some (JStr ''pw''))
         (Some (JStr ''bad context''))))
       = [(''/opt/fleetctl'',
           [Some (JStr ''login''), Some (JStr ''--email''), Some (JStr ''a@b.io''),
            Some (JStr ''--password''), Some (JStr ''pw''),
            Some (JStr ''--context''), Some (JStr ''bad context'')])]"
proof -
  let ?w = example_world
  let ?c = "Some (JStr ''bad context'') :: int json option"
  have e: "engine ?w = example_engine" and f: "FLEET_CTL_PATH ?w = ''/opt/fleetctl''"
    by (simp_all add: example_world_def)
  have v: "isValidContext (engine ?w) ?c = Inr False"
    by (simp add: e isValidContext_def orElse_def String_def class_defs)
  have m: "isValidEmail (engine ?w) (Some (JStr ''a@b.io'')) = Inr True"
    by (simp add: e isValidEmail_def matchesEmail_def String_def isWhiteSpace_def upt_rec nth_Cons')
  have t: "truthy (engine ?w) (Some (JStr ''pw''))" by simp
  have j: "joinStr (engine ?w) '' ''
           (safeArgs [Some (JStr ''login''), Some (JStr ''--email''), Some (JStr ''a@b.io''),
                      Some (JStr ''--password''), Some (JStr ''pw''),
                      Some (JStr ''--context''), Some (orElse (engine ?w) ?c (JStr ''default''))])
         = Inr ''login --email a@b.io --password ****** --context bad context''"
    by (simp add: e orElse_def safeArgs_def upt_rec nth_Cons')
  have p1: "FLEET_CTL_PATH ?w \<noteq> []" and p2: "\<not> List.member (FLEET_CTL_PATH ?w) (CHR 0x00)"
    unfolding f by simp_all
  have n: "\<not> list_ex hasNul [Some (JStr ''a@b.io''), Some (JStr ''pw''), ?c]"
    by simp
  from login_context_not_validated[OF v m t j p1 p2 n]
  have 4: "spawns (fst (api_login ?w (Some (JStr ''a@b.io'')) (Some (JStr ''pw'')) ?c))
       = [(''/opt/fleetctl'',
           [Some (JStr ''login''), Some (JStr ''--email''), Some (JStr ''a@b.io''),
            Some (JStr ''--password''), Some (JStr ''pw''),
            Some (JStr ''--context''), Some (JStr ''bad context'')])]"
    by (simp add: f e orElse_def)
  have v': "isValidContext example_engine ?c = Inr False" using v e by simp
  have 1: "api_hosts ?w ?c = reject 400 ''Invalid context name''"
    by (simp add: api_hosts_def e isValidContext_idem v' Let_def)
  have 2: "api_config ?w (Some (JStr ''https://fleet.example'')) ?c = reject 400 ''Invalid context name''"
    by (simp add: api_config_def e v' startsWith_def)
  have 3: "api_run_command ?w (Some (JArr [JStr ''host-1''])) (Some (JStr ''lock.xml'')) ?c
       = reject 400 ''Invalid context name''"
    by (simp add: api_run_command_def e v')
  from v 1 2 3 4 show ?thesis by blast
qed

text \<open>
  Claim C10. When the context of a request is absent, \<open>null\<close> or the empty string, the
  context validation succeeds, no route answers \<open>Invalid context name\<close>, and every child
  process a route starts gets an argument vector that ends with \<open>--context\<close>,
  \<open>default\<close>.
\<close>

theorem absent_context_is_default:
  assumes "ctx = None \<or> ctx = Some JNull \<or> ctx = Some (JStr [])"
  shows "isValidContext (engine w) ctx = Inr True
   \<and> api_config w address ctx \<noteq> reject 400 ''Invalid context name''
   \<and> api_login w email password ctx \<noteq> reject 400 ''Invalid context name''
   \<and> api_hosts w ctx \<noteq> reject 400 ''Invalid context name''
   \<and> api_run_command w hosts payload ctx \<noteq> reject 400 ''Invalid context name''
   \<and> (\<forall>file argv. (file, argv) \<in> set (spawns (fst (api_config w address ctx))) \<longrightarrow>
         (\<exists>pre. argv = pre @ [Some (JStr ''--context''), Some (JStr ''default'')]))
   \<and> (\<forall>file argv. (file, argv) \<in> set (spawns (fst (api_login w email password ctx))) \<longrightarrow>
         (\<exists>pre. argv = pre @ [Some (JStr ''--context''), Some (JStr ''default'')]))
   \<and> (\<forall>file argv. (file, argv) \<in> set (spawns (fst (api_hosts w ctx))) \<longrightarrow>
         (\<exists>pre. argv = pre @ [Some (JStr ''--context''), Some (JStr ''default'')]))
   \<and> (\<forall>file argv. (file, argv) \<in> set (spawns (fst (api_run_command w hosts payload ctx))) \<longrightarrow>
         (\<exists>pre. argv = pre @ [Some (JStr ''--context''), Some (JStr ''default'')]))"
proof -
  note v = falsy_context_valid[OF assms, of "engine w"]
  note d = falsy_context_default[OF assms, of "engine w"]
  have c: "\<forall>file argv. (file, argv) \<in> set (spawns (fst (api_config w address ctx))) \<longrightarrow>
         (\<exists>pre. argv = pre @ [Some (JStr ''--context''), Some (JStr ''default'')])"
    by (rule spawns_default[where w = w and args = "[Some (JStr ''config''), Some (JStr ''set''),
           Some (JStr ''--address''), address, Some (JStr ''--context''),
           Some (orElse (engine w) ctx (JStr ''default''))]"])
       (use api_config_cases[of w address ctx] in blast, simp only: d ends_with_default)
  have l: "\<forall>file argv. (file, argv) \<in> set (spawns (fst (api_login w email password ctx))) \<longrightarrow>
         (\<exists>pre. argv = pre @ [Some (JStr ''--context''), Some (JStr ''default'')])"
    by (rule spawns_default[where w = w and args = "[Some (JStr ''login''), Some (JStr ''--email''), email,
           Some (JStr ''--password''), password,
           Some (JStr ''--context''), Some (orElse (engine w) ctx (JStr ''default''))]"])
       (use api_login_cases[of w email password ctx] in blast, simp only: d ends_with_default)
  have h: "\<forall>file argv. (file, argv) \<in> set (spawns (fst (api_hosts w ctx))) \<longrightarrow>
         (\<exists>pre. argv = pre @ [Some (JStr ''--context''), Some (JStr ''default'')])"
    using api_hosts_cases[of w ctx] refused_no_effect[of "api_hosts w ctx"] ends_with_default(1)
    unfolding d by auto
  have r: "\<forall>file argv. (file, argv) \<in> set (spawns (fst (api_run_command w hosts payload ctx))) \<longrightarrow>
         (\<exists>pre. argv = pre @ [Some (JStr ''--context''), Some (JStr ''default'')])"
  proof -
    from api_run_command_cases[of w hosts payload ctx]
    consider (ref) "refused (api_run_command w hosts payload ctx)"
      | (nf) "api_run_command w hosts payload ctx = reject 404 ''Payload file not found''"
      | (run) name hostList where "api_run_command w hosts payload ctx =
               runFleetCommand w [Some (JStr ''mdm''), Some (JStr ''run-command''),
                  Some (JStr ''--payload''), Some (JStr (path_join w (PAYLOADS_DIR w) name)),
                  Some (JStr ''--hosts''), Some (JStr hostList),
                  Some (JStr ''--context''), Some (orElse (engine w) ctx (JStr ''default''))]"
      by blast
    then show ?thesis
    proof cases
      case ref
      then show ?thesis using refused_no_effect by fastforce
    next
      case nf
      then show ?thesis by (simp add: reject_def)
    next
      case run
      show ?thesis
        by (rule spawns_default[where w = w and args = "[Some (JStr ''mdm''), Some (JStr ''run-command''),
                  Some (JStr ''--payload''), Some (JStr (path_join w (PAYLOADS_DIR w) name)),
                  Some (JStr ''--hosts''), Some (JStr hostList),
                  Some (JStr ''--context''), Some (orElse (engine w) ctx (JStr ''default''))]"])
           (use run in blast, simp only: d ends_with_default)
    qed
  qed
  from v c l h r api_config_not_context_rejected[OF v] api_login_not_context_rejected
    api_hosts_not_context_rejected[OF v] api_run_command_not_context_rejected[OF v]
  show ?thesis by blast
qed

theorem absent_context_is_default_witness:
  "isValidContext (engine example_world) None = Inr True
   \<and> spawns (fst (api_config example_world (Some (JStr ''https://fleet.example'')) None))
       = [(''/opt/fleetctl'',
           [Some (JStr ''config''), Some (JStr ''set''), Some (JStr ''--address''),
            Some (JStr ''https://fleet.example''), Some (JStr ''--context''), Some (JStr ''default'')])]
   \<and> spawns (fst (api_login example_world (Some (JStr ''a@b.io'')) (Some (JStr ''hunter2'')) (Some JNull)))
       = [(''/opt/fleetctl'',
           [Some (JStr ''login''), Some (JStr ''--email''), Some (JStr ''a@b.io''),
            Some (JStr ''--password''), Some (JStr ''hunter2''),
            Some (JStr ''--context''), Some (JStr ''default'')])]
   \<and> spawns (fst (api_hosts example_world (Some (JStr []))))
       = [(''/opt/fleetctl'',
           [Some (JStr ''get''), Some (JStr ''hosts''), Some (JStr ''--mdm''), Some (JStr ''--json''),
            Some (JStr ''--context''), Some (JStr ''default'')])]
   \<and> spawns (fst (api_run_command example_world (Some (JArr [JStr ''host-1'', JStr ''host-2'']))
         (Some (JStr ''lock.xml'')) None))
       = [(''/opt/fleetctl'',
           [Some (JStr ''mdm''), Some (JStr ''run-command''), Some (JStr ''--payload''),
            Some (JStr ''/opt/payloads/lock.xml''), Some (JStr ''--hosts''), Some (JStr ''host-1,host-2''),
            Some (JStr ''--context''), Some (JStr ''default'')])]"
proof -
  let ?w = example_world
  have e: "engine ?w = example_engine" by (simp add: example_world_def)
  have 0: "isValidContext (engine ?w) None = Inr True"
    using absent_context_is_default[where ctx = None and w = ?w] by blast
  have v: "isValidContext example_engine None = Inr True"
       "isValidContext example_engine (Some JNull) = Inr True"
       "isValidContext example_engine (Some (JStr [])) = Inr True"
    by (simp_all add: falsy_context_valid)
  have 1: "spawns (fst (api_config ?w (Some (JStr ''https://fleet.example'')) None))
       = [(''/opt/fleetctl'',
           [Some (JStr ''config''), Some (JStr ''set''), Some (JStr ''--address''),
            Some (JStr ''https://fleet.example''), Some (JStr ''--context''), Some (JStr ''default'')])]"
    by (simp add: api_config_def e v startsWith_def orElse_def runFleetCommand_def execFileCall_def safeArgs_def
        upt_rec nth_Cons' example_world_def Let_def)
  have m: "isValidEmail example_engine (Some (JStr ''a@b.io'')) = Inr True"
    by (simp add: isValidEmail_def matchesEmail_def String_def isWhiteSpace_def upt_rec nth_Cons')
  have 2: "spawns (fst (api_login ?w (Some (JStr ''a@b.io'')) (Some (JStr ''hunter2'')) (Some JNull)))
       = [(''/opt/fleetctl'',
           [Some (JStr ''login''), Some (JStr ''--email''), Some (JStr ''a@b.io''),
            Some (JStr ''--password''), Some (JStr ''hunter2''),
            Some (JStr ''--context''), Some (JStr ''default'')])]"
    by (simp add: api_login_def e m orElse_def runFleetCommand_def execFileCall_def safeArgs_def
        upt_rec nth_Cons' example_world_def Let_def)
  have 3: "spawns (fst (api_hosts ?w (Some (JStr []))))
       = [(''/opt/fleetctl'',
           [Some (JStr ''get''), Some (JStr ''hosts''), Some (JStr ''--mdm''), Some (JStr ''--json''),
            Some (JStr ''--context''), Some (JStr ''default'')])]"
    using api_hosts_cases[of ?w "Some (JStr [])"]
    by (simp add: api_hosts_def e orElse_def isValidContext_def String_def class_defs Let_def
        execFileCall_def example_world_def split: sum.splits)
  have f: "isValidFilename example_engine (Some (JStr ''lock.xml'')) = Inr True"
    by (simp add: isValidFilename_def route_eval_defs)
  have 4: "spawns (fst (api_run_command ?w (Some (JArr [JStr ''host-1'', JStr ''host-2'']))
         (Some (JStr ''lock.xml'')) None))
       = [(''/opt/fleetctl'',
           [Some (JStr ''mdm''), Some (JStr ''run-command''), Some (JStr ''--payload''),
            Some (JStr ''/opt/payloads/lock.xml''), Some (JStr ''--hosts''), Some (JStr ''host-1,host-2''),
            Some (JStr ''--context''), Some (JStr ''default'')])]"
    by (simp add: api_run_command_def e v f orElse_def route_eval_defs runFleetCommand_def execFileCall_def safeArgs_def
        upt_rec nth_Cons' example_world_def Let_def)
  from 0 1 2 3 4 show ?thesis by blast
qed

end
